theory Spec2Isabelle
  imports Complex_Main "HOL-Library.Sublist"
begin

section \<open>The script \<^verbatim>\<open>run_sumo.py\<close>\<close>

text \<open>
  The script is a client of the TraCI remote-control interface of a traffic simulator.
  The simulator is not part of the repository, so it is a parameter of the model: a record
  of the six interface functions the script calls, over an arbitrary type \<open>'sim\<close> of
  simulator states. Every interface call may raise; the raise is the \<open>Inl\<close> branch of its
  result. Speeds are Python floats; they are modelled as reals (no NaN, no infinities). No
  float lies strictly between the real number \<open>0.1\<close> and the float nearest to it, which
  is the one the literal \<open>0.1\<close> denotes, so the test \<open>speed < 0.1\<close> decides the same on
  floats and on the reals they denote.
\<close>

subsection \<open>Configuration (lines 11-13)\<close>

definition SUMO_CFG :: string where
  "SUMO_CFG = ''twoIntersection.sumocfg''"

definition STOP_TIME_THRESHOLD :: int where
  "STOP_TIME_THRESHOLD = 5"

definition UNAUTHORIZED_VEHICLE_PREFIX :: string where
  "UNAUTHORIZED_VEHICLE_PREFIX = ''unauth''"

subsection \<open>Python built-ins the script uses\<close>

text \<open>\<^verbatim>\<open>int(x)\<close> of a float truncates towards zero.\<close>

definition py_int :: "real \<Rightarrow> int" where
  "py_int x = (if 0 \<le> x then \<lfloor>x\<rfloor> else \<lceil>x\<rceil>)"

definition digit_char :: "nat \<Rightarrow> char" where
  "digit_char d = ''0123456789'' ! d"

fun digits :: "nat \<Rightarrow> string" where
  "digits n = (if n < 10 then [digit_char n] else digits (n div 10) @ [digit_char (n mod 10)])"

declare digits.simps [simp del]

text \<open>\<^verbatim>\<open>str(i)\<close> of an integer: a minus sign for a negative one, then the decimal digits.\<close>

definition py_str :: "int \<Rightarrow> string" where
  "py_str i = (if i < 0 then CHR ''-'' # digits (nat (- i)) else digits (nat i))"

text \<open>\<^verbatim>\<open>s.startswith(p)\<close>.\<close>

definition startswith :: "string \<Rightarrow> string \<Rightarrow> bool" where
  "startswith s p = (take (length p) s = p)"

text \<open>
  \<^verbatim>\<open>random.choice(seq)\<close> returns \<open>seq[i]\<close> for a random index \<open>i\<close> below \<open>len(seq)\<close>.
  The random draw is the parameter \<open>r\<close>, reduced to an index. The script calls it on a
  non-empty list only (line 62 returns before), where the index is in range.
\<close>

definition random_choice :: "nat \<Rightarrow> 'a list \<Rightarrow> 'a" where
  "random_choice r xs = xs ! (r mod length xs)"

text \<open>\<^verbatim>\<open>d.get(k, default)\<close> on a dictionary.\<close>

definition dict_get :: "('k \<rightharpoonup> 'v) \<Rightarrow> 'k \<Rightarrow> 'v \<Rightarrow> 'v" where
  "dict_get d k dflt = (case d k of None \<Rightarrow> dflt | Some v \<Rightarrow> v)"

subsection \<open>The remote interface and the program state\<close>

text \<open>
  The exception classes of \<^verbatim>\<open>traci.exceptions\<close>: \<^verbatim>\<open>FatalTraCIError\<close> is not a subclass of
  \<^verbatim>\<open>TraCIException\<close>, so the handler of line 80 does not catch it.
\<close>

datatype exn = TraCIException string | FatalTraCIError string

record 'sim traci =
  traci_start :: "string list \<Rightarrow> exn + 'sim"
  traci_simulationStep :: "'sim \<Rightarrow> exn + 'sim"
  vehicle_getIDList :: "'sim \<Rightarrow> exn + string list"
  vehicle_getSpeed :: "'sim \<Rightarrow> string \<Rightarrow> exn + real"
  vehicle_setSpeed :: "'sim \<Rightarrow> string \<Rightarrow> real \<Rightarrow> exn + 'sim"
  vehicle_add :: "'sim \<Rightarrow> string \<Rightarrow> string \<Rightarrow> string \<Rightarrow> string \<Rightarrow> string \<Rightarrow> exn + 'sim"

text \<open>
  The lines the script prints, one constructor for each \<^verbatim>\<open>print\<close> of the source;
  \<open>render\<close> gives the text.
\<close>

datatype message =
    Info_started
  | Info_finished
  | Injection_stop string
  | Injection_unauthorized string
  | Error_inject string
  | Stop_anomaly string
  | Unauthorized_anomaly string

definition render :: "message \<Rightarrow> string" where
  "render m = (case m of
      Info_started \<Rightarrow> ''[INFO] SUMO simulation started with TraCI.''
    | Info_finished \<Rightarrow> ''[INFO] Simulation finished.''
    | Injection_stop veh \<Rightarrow> ''[Anomaly Injection] Forcing '' @ veh @ '' to stop.''
    | Injection_unauthorized new_id \<Rightarrow>
        ''[Anomaly Injection] Injecting unauthorized vehicle: '' @ new_id
    | Error_inject e \<Rightarrow> ''[ERROR] Could not inject unauthorized vehicle: '' @ e
    | Stop_anomaly vid \<Rightarrow>
        ''[ANOMALY DETECTED] '' @ vid @ '' has been stopped for ''
          @ py_str STOP_TIME_THRESHOLD @ '' steps.''
    | Unauthorized_anomaly vid \<Rightarrow>
        ''[ANOMALY DETECTED] Unauthorized vehicle on network: '' @ vid)"

text \<open>
  The state the script works on: the simulator behind the connection, the global
  dictionary \<^verbatim>\<open>stop_counters\<close> (line 16) and what has been printed so far.
\<close>

record 'sim state =
  sim :: 'sim
  stop_counters :: "string \<rightharpoonup> int"
  stdout :: "message list"

definition print :: "message \<Rightarrow> 'sim state \<Rightarrow> 'sim state" where
  "print m s = s\<lparr>stdout := stdout s @ [m]\<rparr>"

text \<open>
  Sequencing of calls that may raise: the first exception ends the computation. No
  function of the script but \<^verbatim>\<open>inject_unauthorized_vehicle\<close> has a handler, so an exception
  that is not caught there ends the script; the result is then the exception alone.
\<close>

definition and_then :: "exn + 'a \<Rightarrow> ('a \<Rightarrow> exn + 'b) \<Rightarrow> exn + 'b" where
  "and_then m f = (case m of Inl e \<Rightarrow> Inl e | Inr x \<Rightarrow> f x)"

subsection \<open>\<^verbatim>\<open>inject_sudden_stop_anomaly\<close> (lines 56-66)\<close>

definition inject_sudden_stop_anomaly ::
  "'sim traci \<Rightarrow> nat \<Rightarrow> 'sim state \<Rightarrow> exn + 'sim state" where
  "inject_sudden_stop_anomaly api r s =
     and_then (vehicle_getIDList api (sim s)) (\<lambda>vehicle_ids.
       if vehicle_ids = [] then Inr s
       else
         let veh_to_stop = random_choice r vehicle_ids;
             s1 = print (Injection_stop veh_to_stop) s
         in and_then (vehicle_setSpeed api (sim s1) veh_to_stop 0.0)
              (\<lambda>sm. Inr (s1\<lparr>sim := sm\<rparr>)))"

subsection \<open>\<^verbatim>\<open>inject_unauthorized_vehicle\<close> (lines 69-81)\<close>

text \<open>
  \<open>now\<close> is what \<^verbatim>\<open>time.time()\<close> returns. Only a \<^verbatim>\<open>TraCIException\<close> of the insertion is
  caught (line 80); the simulator is then as it was before the call.
\<close>

definition new_vehicle_id :: "real \<Rightarrow> string" where
  "new_vehicle_id now = UNAUTHORIZED_VEHICLE_PREFIX @ py_str (py_int now)"

definition inject_unauthorized_vehicle ::
  "'sim traci \<Rightarrow> real \<Rightarrow> 'sim state \<Rightarrow> exn + 'sim state" where
  "inject_unauthorized_vehicle api now s =
     (let new_id = new_vehicle_id now;
          route_id = ''route_0''
      in case vehicle_add api (sim s) new_id route_id ''0'' ''max'' ''car'' of
           Inr sm \<Rightarrow> Inr (print (Injection_unauthorized new_id) (s\<lparr>sim := sm\<rparr>))
         | Inl (TraCIException e) \<Rightarrow> Inr (print (Error_inject e) s)
         | Inl (FatalTraCIError e) \<Rightarrow> Inl (FatalTraCIError e))"

subsection \<open>\<^verbatim>\<open>detect_anomalies\<close> (lines 84-105)\<close>

text \<open>The body of the loop of line 93, once the speed of \<open>vid\<close> has been read.\<close>

definition detect_vehicle :: "string \<Rightarrow> real \<Rightarrow> 'sim state \<Rightarrow> 'sim state" where
  "detect_vehicle vid speed s =
     (let s1 =
        (if speed < 0.1 then
           let c = dict_get (stop_counters s) vid 0 + 1;
               s' = s\<lparr>stop_counters := (stop_counters s)(vid \<mapsto> c)\<rparr>
           in if stop_counters s' vid = Some STOP_TIME_THRESHOLD
              then print (Stop_anomaly vid) s' else s'
         else s\<lparr>stop_counters := (stop_counters s)(vid \<mapsto> 0)\<rparr>)
      in if startswith vid UNAUTHORIZED_VEHICLE_PREFIX
         then print (Unauthorized_anomaly vid) s1 else s1)"

fun detect_loop :: "'sim traci \<Rightarrow> string list \<Rightarrow> 'sim state \<Rightarrow> exn + 'sim state" where
  "detect_loop api [] s = Inr s"
| "detect_loop api (vid # vids) s =
     and_then (vehicle_getSpeed api (sim s) vid)
       (\<lambda>speed. detect_loop api vids (detect_vehicle vid speed s))"

definition detect_anomalies :: "'sim traci \<Rightarrow> 'sim state \<Rightarrow> exn + 'sim state" where
  "detect_anomalies api s =
     and_then (vehicle_getIDList api (sim s)) (\<lambda>vehicle_ids. detect_loop api vehicle_ids s)"

subsection \<open>\<^verbatim>\<open>run_simulation\<close> (lines 19-53)\<close>

definition sumo_cmd :: "string list" where
  "sumo_cmd = [''sumo-gui'', ''-c'', SUMO_CFG, ''--start'', ''--no-step-log'', ''true'']"

text \<open>
  One iteration of the loop of line 38. The script draws one random number (line 64, at
  step 50) and reads the clock once (line 74, at step 100): \<open>r\<close> and \<open>now\<close> are these two
  values.
\<close>

definition loop_body ::
  "'sim traci \<Rightarrow> nat \<Rightarrow> real \<Rightarrow> nat \<Rightarrow> 'sim state \<Rightarrow> exn + 'sim state" where
  "loop_body api r now step s =
     and_then (traci_simulationStep api (sim s)) (\<lambda>sm.
     and_then (if step = 50 then inject_sudden_stop_anomaly api r (s\<lparr>sim := sm\<rparr>)
               else Inr (s\<lparr>sim := sm\<rparr>)) (\<lambda>s2.
     and_then (if step = 100 then inject_unauthorized_vehicle api now s2 else Inr s2) (\<lambda>s3.
     detect_anomalies api s3)))"

fun run_loop ::
  "'sim traci \<Rightarrow> nat \<Rightarrow> real \<Rightarrow> nat list \<Rightarrow> 'sim state \<Rightarrow> exn + 'sim state" where
  "run_loop api r now [] s = Inr s"
| "run_loop api r now (step # steps) s =
     and_then (loop_body api r now step s) (run_loop api r now steps)"

text \<open>
  \<open>counters\<close> is the value of the global \<^verbatim>\<open>stop_counters\<close> when the function is called;
  the script calls it once, with the empty dictionary of line 16.
\<close>

definition run_simulation ::
  "'sim traci \<Rightarrow> nat \<Rightarrow> real \<Rightarrow> (string \<rightharpoonup> int) \<Rightarrow> exn + 'sim state" where
  "run_simulation api r now counters =
     and_then (traci_start api sumo_cmd) (\<lambda>sm.
     and_then (run_loop api r now [0..<300]
                 (print Info_started \<lparr>sim = sm, stop_counters = counters, stdout = []\<rparr>))
       (\<lambda>s. Inr (print Info_finished s)))"

definition script_main :: "'sim traci \<Rightarrow> nat \<Rightarrow> real \<Rightarrow> exn + 'sim state" where
  "script_main api r now = run_simulation api r now Map.empty"

subsection \<open>Detection steps and histories\<close>

text \<open>What a call has printed: the lines of the state after it beyond those before it.\<close>

definition new_output :: "'sim state \<Rightarrow> 'sim state \<Rightarrow> message list" where
  "new_output s s' = drop (length (stdout s)) (stdout s')"

text \<open>
  Successive calls of \<open>detect_anomalies\<close>, one for each simulator state of the list (the
  oldest first): between two calls the simulator may change in any way, the counters and
  the output are kept.
\<close>

fun detect_run :: "'sim traci \<Rightarrow> 'sim list \<Rightarrow> 'sim state \<Rightarrow> exn + 'sim state" where
  "detect_run api [] s = Inr s"
| "detect_run api (sm # sms) s =
     and_then (detect_anomalies api (s\<lparr>sim := sm\<rparr>)) (detect_run api sms)"

text \<open>
  What a detection step on the simulator state \<open>sm\<close> observes of the vehicle \<open>v\<close>: its
  speed when \<open>v\<close> is on the ID list, nothing otherwise.
\<close>

definition id_list :: "'sim traci \<Rightarrow> 'sim \<Rightarrow> string list" where
  "id_list api sm = (case vehicle_getIDList api sm of Inl e \<Rightarrow> [] | Inr ids \<Rightarrow> ids)"

definition observed :: "'sim traci \<Rightarrow> 'sim \<Rightarrow> string \<Rightarrow> real option" where
  "observed api sm v =
     (if v \<in> set (id_list api sm)
      then (case vehicle_getSpeed api sm v of Inl e \<Rightarrow> None | Inr x \<Rightarrow> Some x)
      else None)"

text \<open>The speeds observed of \<open>v\<close> over a history, the oldest first.\<close>

definition observations :: "'sim traci \<Rightarrow> 'sim list \<Rightarrow> string \<Rightarrow> real list" where
  "observations api sms v = List.map_filter (\<lambda>sm. observed api sm v) sms"

definition stopped :: "real \<Rightarrow> bool" where
  "stopped x = (x < 0.1)"

text \<open>
  The number of most recent observations of \<open>v\<close>, taken backwards from the last one without
  a gap, at which its speed was below 0.1.
\<close>

definition stopped_streak :: "'sim traci \<Rightarrow> 'sim list \<Rightarrow> string \<Rightarrow> nat" where
  "stopped_streak api sms v = length (takeWhile stopped (rev (observations api sms v)))"

text \<open>
  The other way to count, by detection steps rather than by observations: the number of
  most recent detection steps, taken backwards without a gap, at each of which \<open>v\<close> was
  on the ID list with a speed below 0.1. A step at which \<open>v\<close> was absent ends this count.
\<close>

definition stopped_steps :: "'sim traci \<Rightarrow> 'sim list \<Rightarrow> string \<Rightarrow> nat" where
  "stopped_steps api sms v =
     length (takeWhile (\<lambda>sm. case observed api sm v of None \<Rightarrow> False | Some x \<Rightarrow> x < 0.1)
       (rev sms))"

text \<open>The effect of one observation on a counter (lines 96-101).\<close>

definition count_step :: "real \<Rightarrow> int \<Rightarrow> int" where
  "count_step x c = (if x < 0.1 then c + 1 else 0)"

text \<open>The lines one pass of the loop body prints for \<open>vid\<close> (lines 98-99 and 104-105).\<close>

definition vehicle_messages :: "string \<Rightarrow> real \<Rightarrow> int \<Rightarrow> message list" where
  "vehicle_messages vid speed c =
     (if speed < 0.1 \<and> c + 1 = STOP_TIME_THRESHOLD then [Stop_anomaly vid] else [])
     @ (if startswith vid UNAUTHORIZED_VEHICLE_PREFIX then [Unauthorized_anomaly vid] else [])"

definition speed_read :: "'sim traci \<Rightarrow> 'sim \<Rightarrow> string \<Rightarrow> real" where
  "speed_read api sm v = (case vehicle_getSpeed api sm v of Inl e \<Rightarrow> 0 | Inr x \<Rightarrow> x)"

subsection \<open>The schedule of the main loop\<close>

text \<open>
  The three kinds of iteration the main loop is said to make: a plain one (advance the
  simulator, detect), one that injects the forced stop before detecting, and one that
  inserts the unauthorized vehicle before detecting. \<open>schedule\<close> is the run the
  description gives: 50 plain iterations (steps 0 to 49), the forced stop at step 50,
  49 plain iterations (steps 51 to 99), the insertion at step 100, and 199 plain
  iterations (steps 101 to 299).
\<close>

definition plain_step :: "'sim traci \<Rightarrow> 'sim state \<Rightarrow> exn + 'sim state" where
  "plain_step api s =
     and_then (traci_simulationStep api (sim s)) (\<lambda>sm. detect_anomalies api (s\<lparr>sim := sm\<rparr>))"

definition stop_step :: "'sim traci \<Rightarrow> nat \<Rightarrow> 'sim state \<Rightarrow> exn + 'sim state" where
  "stop_step api r s =
     and_then (traci_simulationStep api (sim s)) (\<lambda>sm.
     and_then (inject_sudden_stop_anomaly api r (s\<lparr>sim := sm\<rparr>)) (detect_anomalies api))"

definition unauthorized_step :: "'sim traci \<Rightarrow> real \<Rightarrow> 'sim state \<Rightarrow> exn + 'sim state" where
  "unauthorized_step api now s =
     and_then (traci_simulationStep api (sim s)) (\<lambda>sm.
     and_then (inject_unauthorized_vehicle api now (s\<lparr>sim := sm\<rparr>)) (detect_anomalies api))"

fun repeat_step :: "nat \<Rightarrow> ('a \<Rightarrow> exn + 'a) \<Rightarrow> 'a \<Rightarrow> exn + 'a" where
  "repeat_step 0 f s = Inr s"
| "repeat_step (Suc n) f s = and_then (f s) (repeat_step n f)"

definition schedule :: "'sim traci \<Rightarrow> nat \<Rightarrow> real \<Rightarrow> 'sim state \<Rightarrow> exn + 'sim state" where
  "schedule api r now s =
     and_then (repeat_step 50 (plain_step api) s) (\<lambda>s1.
     and_then (stop_step api r s1) (\<lambda>s2.
     and_then (repeat_step 49 (plain_step api) s2) (\<lambda>s3.
     and_then (unauthorized_step api now s3) (\<lambda>s4.
     repeat_step 199 (plain_step api) s4))))"

subsection \<open>A small simulator for the examples\<close>

text \<open>
  A simulator whose state is the list of the vehicles on the network with their speeds,
  and whether the connection is up. A step leaves the vehicles as they are; every call on
  a closed connection raises \<^verbatim>\<open>FatalTraCIError\<close>; a call that names an unknown vehicle, or
  inserts a vehicle whose ID is taken, raises \<^verbatim>\<open>TraCIException\<close>.
\<close>

record toy_sim =
  vehicles :: "(string \<times> real) list"
  connected :: bool

definition closed :: "exn + 'a" where
  "closed = Inl (FatalTraCIError ''connection closed'')"

definition toy_api :: "toy_sim traci" where
  "toy_api = \<lparr>
     traci_start = (\<lambda>cmd. Inr \<lparr>vehicles = [], connected = True\<rparr>),
     traci_simulationStep = (\<lambda>sm. if connected sm then Inr sm else closed),
     vehicle_getIDList = (\<lambda>sm. if connected sm then Inr (map fst (vehicles sm)) else closed),
     vehicle_getSpeed = (\<lambda>sm v.
       if connected sm then
         (case map_of (vehicles sm) v of
            None \<Rightarrow> Inl (TraCIException ''vehicle is not known'')
          | Some x \<Rightarrow> Inr x)
       else closed),
     vehicle_setSpeed = (\<lambda>sm v x.
       if connected sm then
         (case map_of (vehicles sm) v of
            None \<Rightarrow> Inl (TraCIException ''vehicle is not known'')
          | Some y \<Rightarrow> Inr (sm\<lparr>vehicles := map (\<lambda>(w, z). (w, if w = v then x else z)) (vehicles sm)\<rparr>))
       else closed),
     vehicle_add = (\<lambda>sm v route_id depart_pos depart_speed type_id.
       if connected sm then
         (case map_of (vehicles sm) v of
            None \<Rightarrow> Inr (sm\<lparr>vehicles := vehicles sm @ [(v, 0)]\<rparr>)
          | Some y \<Rightarrow> Inl (TraCIException ''another vehicle with the id exists''))
       else closed)\<rparr>"

text \<open>
  The same simulator with a route file that lacks the route the script names (line 76):
  every insertion raises \<^verbatim>\<open>TraCIException\<close>.
\<close>

definition no_route_api :: "toy_sim traci" where
  "no_route_api = toy_api\<lparr>vehicle_add :=
     (\<lambda>sm v route_id depart_pos depart_speed type_id.
        Inl (TraCIException ''route is not known''))\<rparr>"

definition on_road :: "(string \<times> real) list \<Rightarrow> toy_sim" where
  "on_road vs = \<lparr>vehicles = vs, connected = True\<rparr>"

definition halted :: toy_sim where
  "halted = on_road [(''veh0'', 0)]"

definition crawling :: toy_sim where
  "crawling = on_road [(''veh0'', 0.05)]"

definition moving :: toy_sim where
  "moving = on_road [(''veh0'', 12)]"

definition empty_road :: toy_sim where
  "empty_road = on_road []"

definition offline :: toy_sim where
  "offline = \<lparr>vehicles = [], connected = False\<rparr>"

definition fresh :: "'sim \<Rightarrow> 'sim state" where
  "fresh sm = \<lparr>sim = sm, stop_counters = Map.empty, stdout = []\<rparr>"

text \<open>A state over the small simulator in which the vehicle \<^verbatim>\<open>veh0\<close> has the counter \<open>c\<close>.\<close>

definition counted :: "toy_sim \<Rightarrow> int \<Rightarrow> message list \<Rightarrow> toy_sim state" where
  "counted sm c out = \<lparr>sim = sm, stop_counters = [''veh0'' \<mapsto> c], stdout = out\<rparr>"

section \<open>Properties\<close>

subsection \<open>One call of \<open>detect_anomalies\<close>\<close>

lemma and_then_Inr [simp]: "and_then (Inr x) f = f x"
  by (simp add: and_then_def)

lemma and_then_Inl [simp]: "and_then (Inl e) f = Inl e"
  by (simp add: and_then_def)

lemma and_then_eq_Inr:
  "and_then m f = Inr y \<longleftrightarrow> (\<exists>x. m = Inr x \<and> f x = Inr y)"
  by (cases m) simp_all

lemma detect_vehicle_eq:
  "detect_vehicle vid speed s =
     s\<lparr>stop_counters := (stop_counters s)(vid \<mapsto> count_step speed (dict_get (stop_counters s) vid 0)),
       stdout := stdout s @ vehicle_messages vid speed (dict_get (stop_counters s) vid 0)\<rparr>"
  by (simp add: detect_vehicle_def vehicle_messages_def count_step_def print_def Let_def)

lemma detect_loop_fold:
  "detect_loop api vids s = Inr s' \<Longrightarrow>
     (\<forall>v\<in>set vids. \<exists>x. vehicle_getSpeed api (sim s) v = Inr x)
     \<and> s' = fold (\<lambda>v. detect_vehicle v (speed_read api (sim s) v)) vids s"
proof (induction vids arbitrary: s)
  case Nil
  then show ?case by simp
next
  case (Cons vid vids)
  from Cons.prems obtain x where
    x: "vehicle_getSpeed api (sim s) vid = Inr x" and
    rest: "detect_loop api vids (detect_vehicle vid x s) = Inr s'"
    by (auto simp: and_then_eq_Inr)
  have same: "sim (detect_vehicle vid x s) = sim s"
    by (simp add: detect_vehicle_eq)
  from Cons.IH [OF rest] same x show ?case
    by (simp add: speed_read_def)
qed

lemma fold_detect_sim:
  "sim (fold (\<lambda>v. detect_vehicle v (f v)) vids s) = sim s"
  by (induction vids arbitrary: s) (simp_all add: detect_vehicle_eq)

lemma fold_detect_counters_absent:
  "v \<notin> set vids \<Longrightarrow>
     stop_counters (fold (\<lambda>v. detect_vehicle v (f v)) vids s) v = stop_counters s v"
  by (induction vids arbitrary: s) (simp_all add: detect_vehicle_eq)

lemma fold_detect_counters_present:
  "distinct vids \<Longrightarrow> v \<in> set vids \<Longrightarrow>
     stop_counters (fold (\<lambda>v. detect_vehicle v (f v)) vids s) v
       = Some (count_step (f v) (dict_get (stop_counters s) v 0))"
proof (induction vids arbitrary: s)
  case Nil
  then show ?case by simp
next
  case (Cons w ws)
  show ?case
  proof (cases "v = w")
    case True
    with Cons.prems have "w \<notin> set ws" by simp
    then have "stop_counters (fold (\<lambda>v. detect_vehicle v (f v)) ws (detect_vehicle w (f w) s)) w
        = stop_counters (detect_vehicle w (f w) s) w"
      by (rule fold_detect_counters_absent)
    moreover have "stop_counters (detect_vehicle w (f w) s) w
        = Some (count_step (f w) (dict_get (stop_counters s) w 0))"
      by (simp add: detect_vehicle_eq)
    ultimately show ?thesis using True
      by (simp del: fun_upd_apply)
  next
    case False
    with Cons.prems have "distinct ws" "v \<in> set ws" by simp_all
    from Cons.IH [OF this] False show ?thesis
      by (simp add: detect_vehicle_eq dict_get_def)
  qed
qed

lemma fold_detect_dom:
  "dom (stop_counters (fold (\<lambda>v. detect_vehicle v (f v)) vids s))
     = dom (stop_counters s) \<union> set vids"
  by (induction vids arbitrary: s) (auto simp: detect_vehicle_eq)

lemma fold_detect_stdout:
  "distinct vids \<Longrightarrow>
     stdout (fold (\<lambda>v. detect_vehicle v (f v)) vids s)
       = stdout s @ concat (map (\<lambda>v. vehicle_messages v (f v) (dict_get (stop_counters s) v 0)) vids)"
proof (induction vids arbitrary: s)
  case Nil
  then show ?case by simp
next
  case (Cons w ws)
  then have d: "distinct ws" and w: "w \<notin> set ws" by simp_all
  have "\<forall>v\<in>set ws. dict_get (stop_counters (detect_vehicle w (f w) s)) v 0
          = dict_get (stop_counters s) v 0"
    using w by (auto simp: detect_vehicle_eq dict_get_def)
  then have "map (\<lambda>v. vehicle_messages v (f v) (dict_get (stop_counters (detect_vehicle w (f w) s)) v 0)) ws
      = map (\<lambda>v. vehicle_messages v (f v) (dict_get (stop_counters s) v 0)) ws"
    by simp
  with Cons.IH [OF d, of "detect_vehicle w (f w) s"]
  have "stdout (fold (\<lambda>v. detect_vehicle v (f v)) ws (detect_vehicle w (f w) s))
      = stdout (detect_vehicle w (f w) s)
        @ concat (map (\<lambda>v. vehicle_messages v (f v) (dict_get (stop_counters s) v 0)) ws)"
    by simp
  moreover have "stdout (detect_vehicle w (f w) s)
      = stdout s @ vehicle_messages w (f w) (dict_get (stop_counters s) w 0)"
    by (simp add: detect_vehicle_eq)
  ultimately show ?case
    by simp
qed


lemma count_stop_messages:
  "distinct ids \<Longrightarrow>
     count_list (concat (map (\<lambda>w. vehicle_messages w (f w) (c w)) ids)) (Stop_anomaly v)
       = (if v \<in> set ids \<and> f v < 0.1 \<and> c v + 1 = STOP_TIME_THRESHOLD then 1 else 0)"
  by (induction ids) (auto simp: vehicle_messages_def)

lemma unauthorized_messages:
  "Unauthorized_anomaly v \<in> set (concat (map (\<lambda>w. vehicle_messages w (f w) (c w)) ids))
     \<longleftrightarrow> v \<in> set ids \<and> startswith v UNAUTHORIZED_VEHICLE_PREFIX"
  by (induction ids) (auto simp: vehicle_messages_def)

lemma fold_detect_unauthorized:
  "\<exists>out. stdout (fold (\<lambda>v. detect_vehicle v (f v)) vids s) = stdout s @ out
     \<and> (\<forall>v. Unauthorized_anomaly v \<in> set out
            \<longleftrightarrow> v \<in> set vids \<and> startswith v UNAUTHORIZED_VEHICLE_PREFIX)"
proof (induction vids arbitrary: s)
  case Nil
  then show ?case by simp
next
  case (Cons w ws)
  obtain out where
    out: "stdout (fold (\<lambda>v. detect_vehicle v (f v)) ws (detect_vehicle w (f w) s))
            = stdout (detect_vehicle w (f w) s) @ out" and
    mem: "\<forall>v. Unauthorized_anomaly v \<in> set out
            \<longleftrightarrow> v \<in> set ws \<and> startswith v UNAUTHORIZED_VEHICLE_PREFIX"
    using Cons.IH [of "detect_vehicle w (f w) s"] by blast
  let ?first = "vehicle_messages w (f w) (dict_get (stop_counters s) w 0)"
  have first: "stdout (detect_vehicle w (f w) s) = stdout s @ ?first"
    by (simp add: detect_vehicle_eq)
  have "stdout (fold (\<lambda>v. detect_vehicle v (f v)) (w # ws) s) = stdout s @ (?first @ out)"
    using out first by simp
  moreover have "\<forall>v. Unauthorized_anomaly v \<in> set (?first @ out)
       \<longleftrightarrow> v \<in> set (w # ws) \<and> startswith v UNAUTHORIZED_VEHICLE_PREFIX"
    using mem by (auto simp: vehicle_messages_def)
  ultimately show ?case by blast
qed

lemma detect_anomalies_fold:
  assumes "detect_anomalies api s = Inr s'"
  shows "vehicle_getIDList api (sim s) = Inr (id_list api (sim s))"
    and "\<forall>v\<in>set (id_list api (sim s)). observed api (sim s) v = Some (speed_read api (sim s) v)"
    and "s' = fold (\<lambda>v. detect_vehicle v (speed_read api (sim s) v)) (id_list api (sim s)) s"
proof -
  from assms obtain ids where
    ids: "vehicle_getIDList api (sim s) = Inr ids" and
    loop: "detect_loop api ids s = Inr s'"
    by (auto simp: detect_anomalies_def and_then_eq_Inr)
  from ids have eq: "id_list api (sim s) = ids"
    by (simp add: id_list_def)
  from ids eq show "vehicle_getIDList api (sim s) = Inr (id_list api (sim s))"
    by simp
  from detect_loop_fold [OF loop] eq
  show "\<forall>v\<in>set (id_list api (sim s)). observed api (sim s) v = Some (speed_read api (sim s) v)"
    by (auto simp: observed_def speed_read_def)
  from detect_loop_fold [OF loop] eq
  show "s' = fold (\<lambda>v. detect_vehicle v (speed_read api (sim s) v)) (id_list api (sim s)) s"
    by simp
qed

lemma observed_absent: "v \<notin> set (id_list api sm) \<Longrightarrow> observed api sm v = None"
  by (simp add: observed_def)

lemma observed_present: "observed api sm v = Some x \<Longrightarrow> v \<in> set (id_list api sm)"
  by (simp add: observed_def split: if_splits)

lemma detect_anomalies_sim:
  "detect_anomalies api s = Inr s' \<Longrightarrow> sim s' = sim s"
  using detect_anomalies_fold(3) [of api s s'] fold_detect_sim by metis

lemma detect_anomalies_absent:
  assumes "detect_anomalies api s = Inr s'" and "observed api (sim s) v = None"
  shows "stop_counters s' v = stop_counters s v"
proof -
  from detect_anomalies_fold(2) [OF assms(1)] assms(2)
  have "v \<notin> set (id_list api (sim s))" by auto
  then show ?thesis
    using detect_anomalies_fold(3) [OF assms(1)] fold_detect_counters_absent by metis
qed

lemma detect_anomalies_present:
  assumes "detect_anomalies api s = Inr s'" and "distinct (id_list api (sim s))"
    and "observed api (sim s) v = Some x"
  shows "stop_counters s' v = Some (count_step x (dict_get (stop_counters s) v 0))"
proof -
  have v: "v \<in> set (id_list api (sim s))"
    using assms(3) by (rule observed_present)
  with detect_anomalies_fold(2) [OF assms(1)] assms(3)
  have x: "speed_read api (sim s) v = x" by auto
  from fold_detect_counters_present [OF assms(2) v, of "speed_read api (sim s)" s]
    detect_anomalies_fold(3) [OF assms(1)] x
  show ?thesis by simp
qed

lemma detect_anomalies_stdout:
  assumes "detect_anomalies api s = Inr s'" and "distinct (id_list api (sim s))"
  shows "stdout s' = stdout s @ concat (map (\<lambda>v. vehicle_messages v (speed_read api (sim s) v)
           (dict_get (stop_counters s) v 0)) (id_list api (sim s)))"
  using fold_detect_stdout [OF assms(2), of "speed_read api (sim s)" s]
    detect_anomalies_fold(3) [OF assms(1)]
  by simp

lemma detect_anomalies_extends:
  assumes "detect_anomalies api s = Inr s'"
  shows "stdout s' = stdout s @ new_output s s'"
proof -
  from fold_detect_unauthorized [of "speed_read api (sim s)" "id_list api (sim s)" s]
    detect_anomalies_fold(3) [OF assms]
  obtain out where "stdout s' = stdout s @ out" by auto
  then show ?thesis by (simp add: new_output_def)
qed

lemma detect_anomalies_stop_count:
  assumes "detect_anomalies api s = Inr s'" and "distinct (id_list api (sim s))"
  shows "count_list (new_output s s') (Stop_anomaly v)
     = (case observed api (sim s) v of
          None \<Rightarrow> 0
        | Some x \<Rightarrow>
            if x < 0.1 \<and> dict_get (stop_counters s) v 0 + 1 = STOP_TIME_THRESHOLD then 1 else 0)"
proof -
  have out: "new_output s s' = concat (map (\<lambda>v. vehicle_messages v (speed_read api (sim s) v)
           (dict_get (stop_counters s) v 0)) (id_list api (sim s)))"
    using detect_anomalies_stdout [OF assms] by (simp add: new_output_def)
  show ?thesis
  proof (cases "observed api (sim s) v")
    case None
    with detect_anomalies_fold(2) [OF assms(1)]
    have "v \<notin> set (id_list api (sim s))" by auto
    with None show ?thesis
      by (simp add: out count_stop_messages [OF assms(2)])
  next
    case (Some x)
    then have v: "v \<in> set (id_list api (sim s))" by (rule observed_present)
    with detect_anomalies_fold(2) [OF assms(1)] Some
    have "speed_read api (sim s) v = x" by auto
    with Some v show ?thesis
      by (simp add: out count_stop_messages [OF assms(2)])
  qed
qed

lemma detect_anomalies_stop_flag:
  assumes "detect_anomalies api s = Inr s'" and "distinct (id_list api (sim s))"
  shows "Stop_anomaly v \<in> set (new_output s s')
     \<longleftrightarrow> (\<exists>x. observed api (sim s) v = Some x \<and> x < 0.1
              \<and> dict_get (stop_counters s) v 0 + 1 = STOP_TIME_THRESHOLD)"
proof -
  have "Stop_anomaly v \<in> set (new_output s s')
      \<longleftrightarrow> count_list (new_output s s') (Stop_anomaly v) \<noteq> 0"
    by (simp add: count_list_0_iff)
  then show ?thesis
    by (simp add: detect_anomalies_stop_count [OF assms] split: option.splits)
qed


subsection \<open>Histories of detection steps\<close>

lemma observations_Nil [simp]: "observations api [] v = []"
  by (simp add: observations_def)

lemma observations_Cons:
  "observations api (sm # sms) v =
     (case observed api sm v of None \<Rightarrow> observations api sms v
      | Some x \<Rightarrow> x # observations api sms v)"
  by (simp add: observations_def split: option.splits)

lemma observations_append:
  "observations api (xs @ ys) v = observations api xs v @ observations api ys v"
  by (induction xs) (simp_all add: observations_Cons split: option.splits)

lemma count_step_stopped: "count_step x c = (if stopped x then c + 1 else 0)"
  by (simp add: count_step_def stopped_def)

lemma fold_count_step_snoc:
  "fold count_step (obs @ [x]) c = count_step x (fold count_step obs c)"
  by simp

lemma fold_count_step:
  "fold count_step obs c =
     (if list_all stopped obs then c + int (length obs)
      else int (length (takeWhile stopped (rev obs))))"
proof (induction obs rule: rev_induct)
  case Nil
  then show ?case by simp
next
  case (snoc x xs)
  show ?case
  proof (cases "stopped x")
    case True
    with snoc show ?thesis
      by (simp add: count_step_stopped)
  next
    case False
    with snoc show ?thesis
      by (simp add: count_step_stopped)
  qed
qed

lemma fold_count_step_0:
  "fold count_step obs 0 = int (length (takeWhile stopped (rev obs)))"
proof (cases "list_all stopped obs")
  case True
  then have "takeWhile stopped (rev obs) = rev obs"
    by (simp add: list_all_iff)
  then have "length (takeWhile stopped (rev obs)) = length obs"
    by (metis length_rev)
  with True show ?thesis by (simp add: fold_count_step)
next
  case False
  then show ?thesis by (simp add: fold_count_step)
qed

lemma detect_run_append:
  "detect_run api (xs @ ys) s = and_then (detect_run api xs s) (detect_run api ys)"
proof (induction xs arbitrary: s)
  case Nil
  then show ?case by simp
next
  case (Cons sm xs)
  then show ?case
    by (cases "detect_anomalies api (s\<lparr>sim := sm\<rparr>)") simp_all
qed

lemma detect_run_extends:
  "detect_run api sms s = Inr s' \<Longrightarrow> stdout s' = stdout s @ new_output s s'"
proof (induction sms arbitrary: s)
  case Nil
  then show ?case by (simp add: new_output_def)
next
  case (Cons sm sms)
  from Cons.prems obtain s1 where
    first: "detect_anomalies api (s\<lparr>sim := sm\<rparr>) = Inr s1" and
    rest: "detect_run api sms s1 = Inr s'"
    by (auto simp: and_then_eq_Inr)
  from detect_anomalies_extends [OF first]
  obtain o1 where o1: "stdout s1 = stdout s @ o1" by auto
  from Cons.IH [OF rest]
  obtain o2 where o2: "stdout s' = stdout s1 @ o2" by auto
  from o1 o2 show ?case by (simp add: new_output_def)
qed

lemma detect_run_counters:
  assumes "detect_run api sms s = Inr s'"
    and "\<forall>sm\<in>set sms. distinct (id_list api sm)"
  shows "stop_counters s' v =
     (if observations api sms v = [] then stop_counters s v
      else Some (fold count_step (observations api sms v) (dict_get (stop_counters s) v 0)))"
  using assms
proof (induction sms arbitrary: s)
  case Nil
  then show ?case by simp
next
  case (Cons sm sms)
  from Cons.prems(1) obtain s1 where
    first: "detect_anomalies api (s\<lparr>sim := sm\<rparr>) = Inr s1" and
    rest: "detect_run api sms s1 = Inr s'"
    by (auto simp: and_then_eq_Inr)
  from Cons.prems(2) have d: "distinct (id_list api (sim (s\<lparr>sim := sm\<rparr>)))"
    and ds: "\<forall>sm\<in>set sms. distinct (id_list api sm)"
    by simp_all
  note IH = Cons.IH [OF rest ds]
  show ?case
  proof (cases "observed api sm v")
    case None
    with detect_anomalies_absent [OF first, of v]
    have "stop_counters s1 v = stop_counters s v" by simp
    with IH None show ?thesis
      by (simp add: observations_Cons dict_get_def)
  next
    case (Some x)
    with detect_anomalies_present [OF first d, of v x]
    have "stop_counters s1 v = Some (count_step x (dict_get (stop_counters s) v 0))"
      by simp
    with IH Some show ?thesis
      by (simp add: observations_Cons dict_get_def)
  qed
qed

lemma detect_run_counter_value:
  assumes "detect_run api sms s = Inr s'"
    and "\<forall>sm\<in>set sms. distinct (id_list api sm)"
  shows "dict_get (stop_counters s') v 0
     = fold count_step (observations api sms v) (dict_get (stop_counters s) v 0)"
  using detect_run_counters [OF assms, of v]
  by (simp add: dict_get_def split: if_splits)


lemma new_output_sim [simp]: "new_output (s\<lparr>sim := sm\<rparr>) s' = new_output s s'"
  by (simp add: new_output_def)

lemma stopped_streak_snoc:
  "stopped_streak api (sms @ [sm]) v =
     (case observed api sm v of
        None \<Rightarrow> stopped_streak api sms v
      | Some x \<Rightarrow> if x < 0.1 then Suc (stopped_streak api sms v) else 0)"
  by (simp add: stopped_streak_def observations_append observations_Cons stopped_def
      split: option.splits)

lemma counter_is_streak:
  assumes "detect_run api sms s0 = Inr s1" and "stop_counters s0 = Map.empty"
    and "\<forall>sm\<in>set sms. distinct (id_list api sm)"
  shows "dict_get (stop_counters s1) v 0 = int (stopped_streak api sms v)"
  using detect_run_counter_value [OF assms(1,3), of v] assms(2)
  by (simp add: dict_get_def fold_count_step_0 stopped_streak_def)

lemma stop_flag_iff_streak:
  assumes run: "detect_run api sms s0 = Inr s1"
    and init: "stop_counters s0 = Map.empty"
    and step: "detect_anomalies api (s1\<lparr>sim := sm\<rparr>) = Inr s2"
    and d: "\<forall>x\<in>set (sms @ [sm]). distinct (id_list api x)"
  shows "Stop_anomaly v \<in> set (new_output s1 s2)
     \<longleftrightarrow> v \<in> set (id_list api sm)
         \<and> int (stopped_streak api (sms @ [sm]) v) = STOP_TIME_THRESHOLD"
proof -
  from d have ds: "\<forall>x\<in>set sms. distinct (id_list api x)"
    and dm: "distinct (id_list api (sim (s1\<lparr>sim := sm\<rparr>)))"
    by simp_all
  have c: "dict_get (stop_counters (s1\<lparr>sim := sm\<rparr>)) v 0 = int (stopped_streak api sms v)"
    using counter_is_streak [OF run init ds, of v] by simp
  have flag: "Stop_anomaly v \<in> set (new_output s1 s2)
     \<longleftrightarrow> (\<exists>x. observed api sm v = Some x \<and> x < 0.1
              \<and> int (stopped_streak api sms v) + 1 = STOP_TIME_THRESHOLD)"
    using detect_anomalies_stop_flag [OF step dm, of v] c by simp
  show ?thesis
  proof (cases "observed api sm v")
    case None
    moreover from detect_anomalies_fold(2) [OF step] None
    have "v \<notin> set (id_list api sm)" by auto
    ultimately show ?thesis using flag by simp
  next
    case (Some x)
    then have "v \<in> set (id_list api sm)" by (rule observed_present)
    with Some flag show ?thesis
      by (auto simp: stopped_streak_snoc STOP_TIME_THRESHOLD_def)
  qed
qed

lemma length_takeWhile_eq:
  "length (takeWhile P xs) = n
     \<longleftrightarrow> n \<le> length xs \<and> (\<forall>x\<in>set (take n xs). P x) \<and> (length xs = n \<or> \<not> P (xs ! n))"
proof
  assume n: "length (takeWhile P xs) = n"
  have le: "n \<le> length xs"
    using n length_takeWhile_le [of P xs] by simp
  have "takeWhile P xs = take n xs"
    using n takeWhile_eq_take [of P xs] by simp
  then have all: "\<forall>x\<in>set (take n xs). P x"
    using set_takeWhileD [of _ P xs] by metis
  have "length xs = n \<or> \<not> P (xs ! n)"
    using n le nth_length_takeWhile [of P xs] by (cases "n < length xs") auto
  with le all
  show "n \<le> length xs \<and> (\<forall>x\<in>set (take n xs). P x) \<and> (length xs = n \<or> \<not> P (xs ! n))"
    by blast
next
  assume a: "n \<le> length xs \<and> (\<forall>x\<in>set (take n xs). P x) \<and> (length xs = n \<or> \<not> P (xs ! n))"
  have "takeWhile P xs = take n xs"
  proof (rule takeWhile_eq_take_P_nth)
    fix i assume "i < n" "i < length xs"
    then have "xs ! i \<in> set (take n xs)"
      by (metis in_set_conv_nth length_take min_less_iff_conj nth_take)
    with a show "P (xs ! i)" by blast
  next
    assume "n < length xs"
    with a show "\<not> P (xs ! n)" by auto
  qed
  with a show "length (takeWhile P xs) = n" by simp
qed

lemma new_output_trans:
  assumes "stdout s1 = stdout s @ new_output s s1" and "stdout s2 = stdout s1 @ new_output s1 s2"
  shows "new_output s s2 = new_output s s1 @ new_output s1 s2"
proof -
  obtain a where a: "stdout s1 = stdout s @ a" using assms(1) ..
  obtain b where b: "stdout s2 = stdout s1 @ b" using assms(2) ..
  from a b show ?thesis by (simp add: new_output_def)
qed

lemma detect_run_absent:
  "detect_run api sms s = Inr s' \<Longrightarrow> \<forall>sm\<in>set sms. v \<notin> set (id_list api sm) \<Longrightarrow>
     stop_counters s' v = stop_counters s v"
proof (induction sms arbitrary: s)
  case Nil
  then show ?case by simp
next
  case (Cons sm sms)
  from Cons.prems(1) obtain s1 where
    first: "detect_anomalies api (s\<lparr>sim := sm\<rparr>) = Inr s1" and
    rest: "detect_run api sms s1 = Inr s'"
    by (auto simp: and_then_eq_Inr)
  from Cons.prems(2) have "observed api (sim (s\<lparr>sim := sm\<rparr>)) v = None"
    by (simp add: observed_absent)
  from detect_anomalies_absent [OF first this]
  have "stop_counters s1 v = stop_counters s v" by simp
  with Cons.IH [OF rest] Cons.prems(2) show ?case by simp
qed

lemma detect_run_stop_count:
  assumes "detect_run api sms s = Inr s'"
    and "\<forall>sm\<in>set sms. distinct (id_list api sm)"
    and "list_all stopped (observations api sms v)"
  shows "count_list (new_output s s') (Stop_anomaly v)
     = (if dict_get (stop_counters s) v 0 < STOP_TIME_THRESHOLD
           \<and> STOP_TIME_THRESHOLD \<le> dict_get (stop_counters s) v 0
                 + int (length (observations api sms v))
        then 1 else 0)"
  using assms
proof (induction sms arbitrary: s)
  case Nil
  then show ?case by (simp add: new_output_def)
next
  case (Cons sm sms)
  from Cons.prems(1) obtain s1 where
    first: "detect_anomalies api (s\<lparr>sim := sm\<rparr>) = Inr s1" and
    rest: "detect_run api sms s1 = Inr s'"
    by (auto simp: and_then_eq_Inr)
  from Cons.prems(2) have d: "distinct (id_list api (sim (s\<lparr>sim := sm\<rparr>)))"
    and ds: "\<forall>sm\<in>set sms. distinct (id_list api sm)"
    by simp_all
  from detect_anomalies_extends [OF first]
  have o1: "stdout s1 = stdout s @ new_output s s1" by simp
  from detect_run_extends [OF rest]
  have o2: "stdout s' = stdout s1 @ new_output s1 s'" .
  from o1 o2 have split: "new_output s s' = new_output s s1 @ new_output s1 s'"
    by (rule new_output_trans)
  have c1: "count_list (new_output s s1) (Stop_anomaly v)
     = (case observed api sm v of
          None \<Rightarrow> 0
        | Some x \<Rightarrow>
            if x < 0.1 \<and> dict_get (stop_counters s) v 0 + 1 = STOP_TIME_THRESHOLD then 1 else 0)"
    using detect_anomalies_stop_count [OF first d, of v] by (simp split: option.splits)
  show ?case
  proof (cases "observed api sm v")
    case None
    with Cons.prems(3) have all: "list_all stopped (observations api sms v)"
      by (simp add: observations_Cons)
    from detect_anomalies_absent [OF first, of v] None
    have "stop_counters s1 v = stop_counters s v" by simp
    then have "dict_get (stop_counters s1) v 0 = dict_get (stop_counters s) v 0"
      by (simp add: dict_get_def)
    with Cons.IH [OF rest ds all] None c1 split show ?thesis
      by (simp add: observations_Cons)
  next
    case (Some x)
    with Cons.prems(3) have "stopped x" and all: "list_all stopped (observations api sms v)"
      by (simp_all add: observations_Cons)
    then have x: "x < 0.1" by (simp add: stopped_def)
    from detect_anomalies_present [OF first d, of v x] Some
    have "stop_counters s1 v = Some (count_step x (dict_get (stop_counters s) v 0))" by simp
    with x have "dict_get (stop_counters s1) v 0 = dict_get (stop_counters s) v 0 + 1"
      by (simp add: dict_get_def count_step_def)
    with Cons.IH [OF rest ds all] Some c1 split x show ?thesis
      by (simp add: observations_Cons)
  qed
qed

subsection \<open>The injections leave the counters alone\<close>

lemma inject_sudden_stop_counters:
  "inject_sudden_stop_anomaly api r s = Inr s' \<Longrightarrow> stop_counters s' = stop_counters s"
  by (auto simp: inject_sudden_stop_anomaly_def and_then_eq_Inr print_def Let_def
      split: if_splits)

lemma inject_unauthorized_counters:
  "inject_unauthorized_vehicle api now s = Inr s' \<Longrightarrow> stop_counters s' = stop_counters s"
  by (auto simp: inject_unauthorized_vehicle_def print_def Let_def
      split: sum.splits exn.splits)

subsection \<open>The main loop unrolled\<close>

lemma and_then_assoc:
  "and_then (and_then m f) g = and_then m (\<lambda>x. and_then (f x) g)"
  by (cases m) simp_all

lemma run_loop_append:
  "run_loop api r now (xs @ ys) s = and_then (run_loop api r now xs s) (run_loop api r now ys)"
proof (induction xs arbitrary: s)
  case Nil
  then show ?case by simp
next
  case (Cons x xs)
  then show ?case
    by (cases "loop_body api r now x s") simp_all
qed

lemma loop_body_plain:
  "step \<noteq> 50 \<Longrightarrow> step \<noteq> 100 \<Longrightarrow> loop_body api r now step s = plain_step api s"
  by (simp add: loop_body_def plain_step_def)

lemma loop_body_50: "loop_body api r now 50 s = stop_step api r s"
  by (simp add: loop_body_def stop_step_def)

lemma loop_body_100: "loop_body api r now 100 s = unauthorized_step api now s"
  by (simp add: loop_body_def unauthorized_step_def)

lemma run_loop_plain:
  "50 \<notin> set xs \<Longrightarrow> 100 \<notin> set xs \<Longrightarrow>
     run_loop api r now xs s = repeat_step (length xs) (plain_step api) s"
proof (induction xs arbitrary: s)
  case Nil
  then show ?case by simp
next
  case (Cons x xs)
  then have x: "x \<noteq> 50" "x \<noteq> 100" and xs: "50 \<notin> set xs" "100 \<notin> set xs"
    by auto
  have "run_loop api r now xs = repeat_step (length xs) (plain_step api)"
    using Cons.IH [OF xs] by (rule ext)
  with x show ?case
    by (simp add: loop_body_plain)
qed

lemma steps_split:
  "[0..<300] = [0..<50] @ 50 # [51..<100] @ 100 # [101..<300]"
proof -
  have a: "[0..<300] = [0..<50] @ [50..<300]"
    using upt_add_eq_append [of 0 50 250] by simp
  have b: "[50..<300] = 50 # [51..<300]"
    using upt_conv_Cons [of 50 300] by simp
  have c: "[51..<300] = [51..<100] @ [100..<300]"
    using upt_add_eq_append [of 51 100 200] by simp
  have d: "[100..<300] = 100 # [101..<300]"
    using upt_conv_Cons [of 100 300] by simp
  from a b c d show ?thesis by simp
qed

lemma run_loop_plain_upt:
  assumes "50 < i \<or> j \<le> 50" and "100 < i \<or> j \<le> 100"
  shows "run_loop api r now [i..<j] = repeat_step (j - i) (plain_step api)"
proof
  fix s
  from assms have "50 \<notin> set [i..<j]" and "100 \<notin> set [i..<j]"
    by auto
  from run_loop_plain [OF this]
  show "run_loop api r now [i..<j] s = repeat_step (j - i) (plain_step api) s"
    by simp
qed

lemma run_loop_schedule:
  "run_loop api r now [0..<300] s = schedule api r now s"
proof -
  have "run_loop api r now [0..<50] = repeat_step (50 - 0) (plain_step api)"
    by (rule run_loop_plain_upt) simp_all
  then have p1: "run_loop api r now [0..<50] = repeat_step 50 (plain_step api)"
    by (simp only: diff_zero)
  have n2: "(100::nat) - 51 = 49" by simp
  have "run_loop api r now [51..<100] = repeat_step (100 - 51) (plain_step api)"
    by (rule run_loop_plain_upt) simp_all
  then have p2: "run_loop api r now [51..<100] = repeat_step 49 (plain_step api)"
    by (simp only: n2)
  have n3: "(300::nat) - 101 = 199" by simp
  have "run_loop api r now [101..<300] = repeat_step (300 - 101) (plain_step api)"
    by (rule run_loop_plain_upt) simp_all
  then have p3: "run_loop api r now [101..<300] = repeat_step 199 (plain_step api)"
    by (simp only: n3)
  have f4: "run_loop api r now (100 # [101..<300])
      = (\<lambda>s4. and_then (unauthorized_step api now s4) (repeat_step 199 (plain_step api)))"
    by (rule ext) (simp only: run_loop.simps loop_body_100 p3)
  have f3: "run_loop api r now ([51..<100] @ 100 # [101..<300])
      = (\<lambda>s3. and_then (repeat_step 49 (plain_step api) s3) (\<lambda>s4.
           and_then (unauthorized_step api now s4) (repeat_step 199 (plain_step api))))"
    by (rule ext) (simp only: run_loop_append p2 f4)
  have f2: "run_loop api r now (50 # [51..<100] @ 100 # [101..<300])
      = (\<lambda>s2. and_then (stop_step api r s2) (\<lambda>s3.
           and_then (repeat_step 49 (plain_step api) s3) (\<lambda>s4.
           and_then (unauthorized_step api now s4) (repeat_step 199 (plain_step api)))))"
    by (rule ext) (simp only: run_loop.simps loop_body_50 f3)
  have "run_loop api r now ([0..<50] @ 50 # [51..<100] @ 100 # [101..<300]) s
      = schedule api r now s"
    by (simp only: run_loop_append p1 f2 schedule_def)
  then show ?thesis by (simp only: steps_split)
qed

lemma run_loop_fixed:
  "\<forall>step\<in>set xs. loop_body api r now step s = Inr s \<Longrightarrow> run_loop api r now xs s = Inr s"
  by (induction xs) simp_all

lemma stop_step_empty:
  "traci_simulationStep api (sim s) = Inr sm \<Longrightarrow> vehicle_getIDList api sm = Inr [] \<Longrightarrow>
     stop_step api r s = plain_step api s"
  by (simp add: stop_step_def plain_step_def inject_sudden_stop_anomaly_def)

subsection \<open>Exceptions\<close>

lemma detect_loop_raises:
  "v \<in> set ids \<Longrightarrow> vehicle_getSpeed api (sim s) v = Inl x \<Longrightarrow>
     \<exists>w x'. w \<in> set ids \<and> vehicle_getSpeed api (sim s) w = Inl x'
        \<and> detect_loop api ids s = Inl x'"
proof (induction ids arbitrary: s)
  case Nil
  then show ?case by simp
next
  case (Cons w ws)
  show ?case
  proof (cases "vehicle_getSpeed api (sim s) w")
    case (Inl x')
    then have "detect_loop api (w # ws) s = Inl x'" by simp
    with Inl show ?thesis by auto
  next
    case (Inr speed)
    with Cons.prems have v: "v \<in> set ws" by auto
    have same: "sim (detect_vehicle w speed s) = sim s"
      by (simp add: detect_vehicle_eq)
    from Cons.prems(2) same
    have "vehicle_getSpeed api (sim (detect_vehicle w speed s)) v = Inl x" by simp
    from Cons.IH [OF v this] same obtain u x' where
      "u \<in> set ws" "vehicle_getSpeed api (sim s) u = Inl x'"
      "detect_loop api ws (detect_vehicle w speed s) = Inl x'"
      by auto
    with Inr show ?thesis by auto
  qed
qed

lemma run_loop_raises:
  "run_loop api r now before s = Inr s1 \<Longrightarrow> loop_body api r now step s1 = Inl x \<Longrightarrow>
     run_loop api r now (before @ step # rest) s = Inl x"
  by (simp add: run_loop_append)

subsection \<open>The ID of the inserted vehicle\<close>

lemma digit_char_digit: "d < 10 \<Longrightarrow> digit_char d \<in> set ''0123456789''"
proof -
  assume "d < 10"
  then have "d < length ''0123456789''" by simp
  then have "''0123456789'' ! d \<in> set ''0123456789''" by (rule nth_mem)
  then show ?thesis by (simp only: digit_char_def)
qed

lemma digits_are_digits: "digits n \<noteq> [] \<and> set (digits n) \<subseteq> set ''0123456789''"
proof (induction n rule: digits.induct)
  case (1 n)
  show ?case
  proof (cases "n < 10")
    case True
    then have "digits n = [digit_char n]" by (simp add: digits.simps)
    with digit_char_digit [OF True] show ?thesis by simp
  next
    case False
    then have eq: "digits n = digits (n div 10) @ [digit_char (n mod 10)]"
      by (simp add: digits.simps)
    have "digit_char (n mod 10) \<in> set ''0123456789''"
      by (rule digit_char_digit) simp
    with "1.IH" [OF False] eq show ?thesis by simp
  qed
qed

lemma startswith_append: "startswith (p @ rest) p"
  by (simp add: startswith_def)

subsection \<open>Evaluating the examples\<close>

lemmas toy_defs = toy_api_def on_road_def halted_def crawling_def moving_def empty_road_def
  offline_def
  fresh_def counted_def closed_def detect_anomalies_def
  detect_vehicle_def print_def dict_get_def startswith_def UNAUTHORIZED_VEHICLE_PREFIX_def
  STOP_TIME_THRESHOLD_def

lemmas toy_obs = observations_def observed_def id_list_def stopped_streak_def stopped_def

lemmas no_route_defs = no_route_api_def toy_defs loop_body_def inject_sudden_stop_anomaly_def
  inject_unauthorized_vehicle_def

lemma new_vehicle_id_example: "new_vehicle_id 1762259200.5 = ''unauth1762259200''"
  by (simp add: new_vehicle_id_def py_int_def py_str_def UNAUTHORIZED_VEHICLE_PREFIX_def
      digits.simps digit_char_def)

lemmas new_vehicle_id_simps = new_vehicle_id_example new_vehicle_id_example [simplified]

lemma render_example:
  "render (Stop_anomaly ''veh0'') = ''[ANOMALY DETECTED] veh0 has been stopped for 5 steps.''"
  by (simp add: render_def py_str_def STOP_TIME_THRESHOLD_def digits.simps digit_char_def)

lemma startswith_iff: "startswith v p \<longleftrightarrow> (\<exists>rest. v = p @ rest)"
  unfolding startswith_def
  by (metis append_eq_conv_conj append_take_drop_id)

section \<open>The claims\<close>

subsection \<open>The unauthorized-vehicle rule\<close>

text \<open>
  Claim C2. At a detection step (a call of \<open>detect_anomalies\<close> that returns), the line
  for an unauthorized vehicle is printed for \<open>v\<close> if and only if \<open>v\<close> is on the ID list
  the simulator returned and \<open>v\<close> starts with the prefix \<^verbatim>\<open>unauth\<close>. No hypothesis is made on
  the ID list or on the counters.
\<close>

theorem unauthorized_flag_iff_prefix:
  assumes "detect_anomalies api s = Inr s'"
    and "vehicle_getIDList api (sim s) = Inr ids"
  shows "(Unauthorized_anomaly v \<in> set (new_output s s')
           \<longleftrightarrow> v \<in> set ids \<and> startswith v UNAUTHORIZED_VEHICLE_PREFIX)
         \<and> (startswith v UNAUTHORIZED_VEHICLE_PREFIX \<longleftrightarrow> (\<exists>rest. v = ''unauth'' @ rest))"
proof -
  from assms(2) have ids: "id_list api (sim s) = ids"
    by (simp add: id_list_def)
  from fold_detect_unauthorized [of "speed_read api (sim s)" ids s]
    detect_anomalies_fold(3) [OF assms(1)] ids
  obtain out where out: "stdout s' = stdout s @ out"
    and mem: "\<forall>v. Unauthorized_anomaly v \<in> set out
            \<longleftrightarrow> v \<in> set ids \<and> startswith v UNAUTHORIZED_VEHICLE_PREFIX"
    by auto
  from out have "new_output s s' = out" by (simp add: new_output_def)
  with mem show ?thesis
    by (simp add: startswith_iff UNAUTHORIZED_VEHICLE_PREFIX_def)
qed

theorem unauthorized_flag_iff_prefix_witness:
  "detect_anomalies toy_api (fresh (on_road [(''unauth7'', 3), (''car1'', 3)]))
     = Inr \<lparr>sim = on_road [(''unauth7'', 3), (''car1'', 3)],
            stop_counters = [''unauth7'' \<mapsto> 0, ''car1'' \<mapsto> 0],
            stdout = [Unauthorized_anomaly ''unauth7'']\<rparr>
   \<and> Unauthorized_anomaly ''unauth7''
       \<in> set (new_output (fresh (on_road [(''unauth7'', 3), (''car1'', 3)]))
            \<lparr>sim = on_road [(''unauth7'', 3), (''car1'', 3)],
             stop_counters = [''unauth7'' \<mapsto> 0, ''car1'' \<mapsto> 0],
             stdout = [Unauthorized_anomaly ''unauth7'']\<rparr>)
   \<and> Unauthorized_anomaly ''car1''
       \<notin> set (new_output (fresh (on_road [(''unauth7'', 3), (''car1'', 3)]))
            \<lparr>sim = on_road [(''unauth7'', 3), (''car1'', 3)],
             stop_counters = [''unauth7'' \<mapsto> 0, ''car1'' \<mapsto> 0],
             stdout = [Unauthorized_anomaly ''unauth7'']\<rparr>)"
proof -
  let ?s = "fresh (on_road [(''unauth7'', 3), (''car1'', 3)])"
  let ?s' = "\<lparr>sim = on_road [(''unauth7'', 3), (''car1'', 3)],
            stop_counters = [''unauth7'' \<mapsto> 0, ''car1'' \<mapsto> 0],
            stdout = [Unauthorized_anomaly ''unauth7'']\<rparr>"
  have run: "detect_anomalies toy_api ?s = Inr ?s'"
    by (simp add: toy_defs)
  have ids: "vehicle_getIDList toy_api (sim ?s) = Inr [''unauth7'', ''car1'']"
    by (simp add: toy_defs)
  from unauthorized_flag_iff_prefix [OF run ids, of "''unauth7''"]
    unauthorized_flag_iff_prefix [OF run ids, of "''car1''"] run
  show ?thesis
    by (simp add: startswith_def UNAUTHORIZED_VEHICLE_PREFIX_def)
qed

subsection \<open>The forced stop\<close>

text \<open>
  Claim C10. When the simulator reports no vehicle, \<open>inject_sudden_stop_anomaly\<close> returns
  normally with the state it was given: the simulator, the counters and the output are
  unchanged, so no \<^verbatim>\<open>setSpeed\<close> was issued. When it reports vehicles, the function is one
  call of \<^verbatim>\<open>setSpeed\<close>, with speed 0, on one vehicle of the reported list; the state it
  returns differs from the given one by the simulator that call returns and by the line
  printed for that vehicle.
\<close>

theorem inject_sudden_stop_cases:
  "(vehicle_getIDList api (sim s) = Inr [] \<longrightarrow> inject_sudden_stop_anomaly api r s = Inr s)
   \<and> (vehicle_getIDList api (sim s) = Inr ids \<and> ids \<noteq> [] \<longrightarrow>
        (\<exists>veh\<in>set ids. inject_sudden_stop_anomaly api r s =
           and_then (vehicle_setSpeed api (sim s) veh 0)
             (\<lambda>sm. Inr (s\<lparr>stdout := stdout s @ [Injection_stop veh], sim := sm\<rparr>))))"
proof (intro conjI impI)
  assume "vehicle_getIDList api (sim s) = Inr []"
  then show "inject_sudden_stop_anomaly api r s = Inr s"
    by (simp add: inject_sudden_stop_anomaly_def)
next
  assume a: "vehicle_getIDList api (sim s) = Inr ids \<and> ids \<noteq> []"
  then have "random_choice r ids \<in> set ids"
    by (simp add: random_choice_def)
  moreover have "inject_sudden_stop_anomaly api r s =
      and_then (vehicle_setSpeed api (sim s) (random_choice r ids) 0)
        (\<lambda>sm. Inr (s\<lparr>stdout := stdout s @ [Injection_stop (random_choice r ids)], sim := sm\<rparr>))"
    using a by (simp add: inject_sudden_stop_anomaly_def print_def Let_def)
  ultimately show "\<exists>veh\<in>set ids. inject_sudden_stop_anomaly api r s =
           and_then (vehicle_setSpeed api (sim s) veh 0)
             (\<lambda>sm. Inr (s\<lparr>stdout := stdout s @ [Injection_stop veh], sim := sm\<rparr>))"
    by blast
qed

theorem inject_sudden_stop_cases_witness:
  "inject_sudden_stop_anomaly toy_api 7 (fresh (on_road [])) = Inr (fresh (on_road []))
   \<and> inject_sudden_stop_anomaly toy_api 7 (fresh (on_road [(''car1'', 13.9), (''car2'', 8)]))
       = Inr \<lparr>sim = on_road [(''car1'', 13.9), (''car2'', 0)],
              stop_counters = Map.empty,
              stdout = [Injection_stop ''car2'']\<rparr>"
proof -
  let ?empty = "fresh (on_road [])"
  let ?busy = "fresh (on_road [(''car1'', 13.9), (''car2'', 8)])"
  have none: "vehicle_getIDList toy_api (sim ?empty) = Inr []"
    by (simp add: toy_defs)
  have two: "vehicle_getIDList toy_api (sim ?busy) = Inr [''car1'', ''car2''] \<and> [''car1'', ''car2''] \<noteq> []"
    by (simp add: toy_defs)
  from inject_sudden_stop_cases [where api = toy_api and s = ?empty and r = 7] none
  have first: "inject_sudden_stop_anomaly toy_api 7 ?empty = Inr ?empty"
    by blast
  from inject_sudden_stop_cases [where api = toy_api and s = ?busy and r = 7
      and ids = "[''car1'', ''car2'']"] two
  obtain veh where "veh \<in> set [''car1'', ''car2'']"
    and "inject_sudden_stop_anomaly toy_api 7 ?busy =
           and_then (vehicle_setSpeed toy_api (sim ?busy) veh 0)
             (\<lambda>sm. Inr (?busy\<lparr>stdout := stdout ?busy @ [Injection_stop veh], sim := sm\<rparr>))"
    by blast
  moreover have "inject_sudden_stop_anomaly toy_api 7 ?busy
       = Inr \<lparr>sim = on_road [(''car1'', 13.9), (''car2'', 0)],
              stop_counters = Map.empty,
              stdout = [Injection_stop ''car2'']\<rparr>"
    by (simp add: toy_defs inject_sudden_stop_anomaly_def random_choice_def Let_def
          numeral_2_eq_2 [symmetric])
  ultimately show ?thesis using first by simp
qed


subsection \<open>The prolonged-stop rule\<close>

text \<open>
  The theorems on the prolonged-stop rule are about a history of detection steps: the
  calls of \<open>detect_anomalies\<close> made since the counters were empty, all of which returned,
  each on an ID list without duplicates. An observation of a vehicle is a step at which
  the vehicle was on the ID list; at a step at which it was not, its speed is not read and
  its counter is not touched.
\<close>

text \<open>
  Claim C1, amended. At a detection step the line for a prolonged stop is printed for
  \<open>v\<close> if and only if \<open>v\<close> is on the ID list of that step and, of the observations of \<open>v\<close>
  up to and including this one, taken from the most recent backwards, exactly the first
  five have a speed below 0.1: there are at least five, the five most recent are all below
  0.1, and the sixth most recent does not exist or is not below 0.1.
\<close>

theorem stop_flag_iff_five_stopped:
  assumes "detect_run api sms s0 = Inr s1"
    and "stop_counters s0 = Map.empty"
    and "detect_anomalies api (s1\<lparr>sim := sm\<rparr>) = Inr s2"
    and "\<forall>x\<in>set (sms @ [sm]). distinct (id_list api x)"
  shows "Stop_anomaly v \<in> set (new_output s1 s2)
     \<longleftrightarrow> v \<in> set (id_list api sm)
         \<and> (let recent = rev (observations api (sms @ [sm]) v)
            in 5 \<le> length recent \<and> (\<forall>x\<in>set (take 5 recent). x < 0.1)
               \<and> (length recent = 5 \<or> \<not> recent ! 5 < 0.1))"
proof -
  have "int (stopped_streak api (sms @ [sm]) v) = STOP_TIME_THRESHOLD
     \<longleftrightarrow> length (takeWhile stopped (rev (observations api (sms @ [sm]) v))) = 5"
    by (simp add: stopped_streak_def STOP_TIME_THRESHOLD_def)
  then show ?thesis
    using stop_flag_iff_streak [OF assms, of v]
    by (simp add: length_takeWhile_eq stopped_def Let_def)
qed

text \<open>The fifth step of a vehicle that stands still from the start is flagged.\<close>

theorem stop_flag_iff_five_stopped_witness:
  "detect_run toy_api [halted, halted, halted, halted] (fresh halted) = Inr (counted halted 4 [])
   \<and> detect_anomalies toy_api (counted halted 4 []) = Inr (counted halted 5 [Stop_anomaly ''veh0''])
   \<and> Stop_anomaly ''veh0''
       \<in> set (new_output (counted halted 4 []) (counted halted 5 [Stop_anomaly ''veh0'']))
   \<and> rev (observations toy_api [halted, halted, halted, halted, halted] ''veh0'') = [0, 0, 0, 0, 0]"
proof -
  have run: "detect_run toy_api [halted, halted, halted, halted] (fresh halted)
      = Inr (counted halted 4 [])"
    by (simp add: toy_defs)
  have init: "stop_counters (fresh halted) = Map.empty"
    by (simp add: fresh_def)
  have step: "detect_anomalies toy_api ((counted halted 4 [])\<lparr>sim := halted\<rparr>)
      = Inr (counted halted 5 [Stop_anomaly ''veh0''])"
    by (simp add: toy_defs)
  have d: "\<forall>x\<in>set ([halted, halted, halted, halted] @ [halted]). distinct (id_list toy_api x)"
    by (simp add: toy_defs id_list_def)
  have obs: "rev (observations toy_api [halted, halted, halted, halted, halted] ''veh0'')
      = [0, 0, 0, 0, 0]"
    by (simp add: toy_defs toy_obs)
  from stop_flag_iff_five_stopped [OF run init step d, of "''veh0''"] obs
  have "Stop_anomaly ''veh0''
       \<in> set (new_output (counted halted 4 []) (counted halted 5 [Stop_anomaly ''veh0'']))"
    by (simp add: toy_defs id_list_def)
  with run step obs show ?thesis
    by (simp add: counted_def)
qed

text \<open>
  As stated, C1 fails: at the sixth step of a vehicle that stands still from the start the
  speed is below 0.1 at that step and at the five steps before it, and no line is printed,
  the counter being 6.
\<close>

theorem stop_flag_sixth_step_counterexample:
  "detect_run toy_api [halted, halted, halted, halted, halted] (fresh halted)
     = Inr (counted halted 5 [Stop_anomaly ''veh0''])
   \<and> detect_anomalies toy_api (counted halted 5 [Stop_anomaly ''veh0''])
       = Inr (counted halted 6 [Stop_anomaly ''veh0''])
   \<and> Stop_anomaly ''veh0''
       \<notin> set (new_output (counted halted 5 [Stop_anomaly ''veh0''])
                (counted halted 6 [Stop_anomaly ''veh0'']))
   \<and> observations toy_api [halted, halted, halted, halted, halted, halted] ''veh0''
       = [0, 0, 0, 0, 0, 0]"
  by (simp add: toy_defs toy_obs new_output_def)

text \<open>
  Claim C4, amended. The line for a prolonged stop is printed for \<open>v\<close> at a detection step
  only if \<open>v\<close> has been observed at least five times and its speed was below 0.1 (not
  necessarily 0) at each of its five most recent observations.
\<close>

theorem stop_flag_only_if_below_threshold:
  assumes "detect_run api sms s0 = Inr s1"
    and "stop_counters s0 = Map.empty"
    and "detect_anomalies api (s1\<lparr>sim := sm\<rparr>) = Inr s2"
    and "\<forall>x\<in>set (sms @ [sm]). distinct (id_list api x)"
    and "Stop_anomaly v \<in> set (new_output s1 s2)"
  shows "5 \<le> length (observations api (sms @ [sm]) v)
     \<and> (\<forall>x\<in>set (take 5 (rev (observations api (sms @ [sm]) v))). x < 0.1)"
proof -
  from stop_flag_iff_streak [OF assms(1-4), of v] assms(5)
  have "length (takeWhile stopped (rev (observations api (sms @ [sm]) v))) = 5"
    by (simp add: stopped_streak_def STOP_TIME_THRESHOLD_def)
  then show ?thesis
    by (simp add: length_takeWhile_eq stopped_def)
qed

theorem stop_flag_only_if_below_threshold_witness:
  "Stop_anomaly ''veh0''
       \<in> set (new_output (counted crawling 4 []) (counted crawling 5 [Stop_anomaly ''veh0'']))
   \<and> 5 \<le> length (observations toy_api ([crawling, crawling, crawling, crawling] @ [crawling]) ''veh0'')
   \<and> list_all (\<lambda>x. x < 0.1)
        (take 5 (rev (observations toy_api ([crawling, crawling, crawling, crawling] @ [crawling]) ''veh0'')))"
proof -
  have run: "detect_run toy_api [crawling, crawling, crawling, crawling] (fresh crawling)
      = Inr (counted crawling 4 [])"
    by (simp add: toy_defs)
  have init: "stop_counters (fresh crawling) = Map.empty"
    by (simp add: fresh_def)
  have step: "detect_anomalies toy_api ((counted crawling 4 [])\<lparr>sim := crawling\<rparr>)
      = Inr (counted crawling 5 [Stop_anomaly ''veh0''])"
    by (simp add: toy_defs)
  have d: "\<forall>x\<in>set ([crawling, crawling, crawling, crawling] @ [crawling]).
      distinct (id_list toy_api x)"
    by (simp add: toy_defs id_list_def)
  have flag: "Stop_anomaly ''veh0''
       \<in> set (new_output (counted crawling 4 []) (counted crawling 5 [Stop_anomaly ''veh0'']))"
    by (simp add: new_output_def counted_def)
  from stop_flag_only_if_below_threshold [OF run init step d flag] flag
  show ?thesis
    by (simp add: list_all_iff)
qed

text \<open>
  As stated, C4 fails: a vehicle that creeps at speed 0.05 is flagged at its fifth step,
  and its speed was never 0.
\<close>

theorem stop_flag_nonzero_speed_counterexample:
  "detect_run toy_api [crawling, crawling, crawling, crawling] (fresh crawling)
     = Inr (counted crawling 4 [])
   \<and> detect_anomalies toy_api (counted crawling 4 [])
       = Inr (counted crawling 5 [Stop_anomaly ''veh0''])
   \<and> Stop_anomaly ''veh0''
       \<in> set (new_output (counted crawling 4 []) (counted crawling 5 [Stop_anomaly ''veh0'']))
   \<and> observations toy_api [crawling, crawling, crawling, crawling, crawling] ''veh0''
       = [0.05, 0.05, 0.05, 0.05, 0.05]
   \<and> (0.05 :: real) \<noteq> 0"
  by (simp add: toy_defs toy_obs new_output_def)

text \<open>
  Claim C6, amended. A call of \<open>detect_anomalies\<close> that returns leaves the simulator as it
  was and only appends to the output; the counters are the one thing it rewrites. After a
  history that started with empty counters, a vehicle has a counter exactly when it has
  been observed, and the counter is the number of its most recent observations, taken
  backwards without a gap, with a speed below 0.1, where the observations of a vehicle are
  the detection steps at which it was on the ID list: a step at which it was absent is
  skipped, it neither counts nor resets the counter. That number is not negative, and it
  is 0 when the last observation of the vehicle had a speed of at least 0.1.
\<close>

theorem stop_counters_count_streak:
  "(detect_anomalies api s = Inr t \<longrightarrow> sim t = sim s \<and> stdout t = stdout s @ new_output s t)
   \<and> (detect_run api sms s0 = Inr s1 \<and> stop_counters s0 = Map.empty
        \<and> (\<forall>sm\<in>set sms. distinct (id_list api sm)) \<longrightarrow>
      stop_counters s1 v =
        (if observations api sms v = [] then None
         else Some (int (stopped_streak api sms v)))
      \<and> (\<forall>c. stop_counters s1 v = Some c \<longrightarrow> 0 \<le> c)
      \<and> (observations api sms v \<noteq> [] \<and> \<not> last (observations api sms v) < 0.1
            \<longrightarrow> stop_counters s1 v = Some 0))"
proof (intro conjI impI)
  assume "detect_anomalies api s = Inr t"
  then show "sim t = sim s" and "stdout t = stdout s @ new_output s t"
    by (rule detect_anomalies_sim, rule detect_anomalies_extends)
next
  assume a: "detect_run api sms s0 = Inr s1 \<and> stop_counters s0 = Map.empty
        \<and> (\<forall>sm\<in>set sms. distinct (id_list api sm))"
  then have run: "detect_run api sms s0 = Inr s1"
    and init: "stop_counters s0 = Map.empty"
    and d: "\<forall>sm\<in>set sms. distinct (id_list api sm)"
    by simp_all
  show eq: "stop_counters s1 v =
        (if observations api sms v = [] then None
         else Some (int (stopped_streak api sms v)))"
    using detect_run_counters [OF run d, of v] init
    by (simp add: dict_get_def fold_count_step_0 stopped_streak_def)
  then show "\<forall>c. stop_counters s1 v = Some c \<longrightarrow> 0 \<le> c"
    by (auto split: if_splits)
  {
    assume b: "observations api sms v \<noteq> [] \<and> \<not> last (observations api sms v) < 0.1"
    then have "takeWhile stopped (rev (observations api sms v)) = []"
      by (simp add: takeWhile_eq_Nil_iff hd_rev stopped_def)
    with eq b show "stop_counters s1 v = Some 0"
      by (simp add: stopped_streak_def)
  }
qed

theorem stop_counters_count_streak_witness:
  "detect_run toy_api [halted, halted, moving, halted, halted, halted] (fresh halted)
     = Inr (counted halted 3 [])
   \<and> stop_counters (counted halted 3 []) ''veh0''
       = Some (int (stopped_streak toy_api [halted, halted, moving, halted, halted, halted] ''veh0''))
   \<and> observations toy_api [halted, halted, moving, halted, halted, halted] ''veh0''
       = [0, 0, 12, 0, 0, 0]
   \<and> detect_run toy_api [halted, moving] (fresh halted) = Inr (counted moving 0 [])"
proof -
  let ?h = "[halted, halted, moving, halted, halted, halted]"
  have run: "detect_run toy_api ?h (fresh halted) = Inr (counted halted 3 [])"
    by (simp add: toy_defs)
  have init: "stop_counters (fresh halted) = Map.empty"
    by (simp add: fresh_def)
  have d: "\<forall>sm\<in>set ?h. distinct (id_list toy_api sm)"
    by (simp add: toy_defs id_list_def)
  have obs: "observations toy_api ?h ''veh0'' = [0, 0, 12, 0, 0, 0]"
    by (simp add: toy_defs toy_obs)
  have short: "detect_run toy_api [halted, moving] (fresh halted) = Inr (counted moving 0 [])"
    by (simp add: toy_defs)
  from stop_counters_count_streak
    [where api = toy_api and sms = ?h and ?s0.0 = "fresh halted"
       and ?s1.0 = "counted halted 3 []" and v = "''veh0''"]
    run init d obs
  have "stop_counters (counted halted 3 []) ''veh0''
       = Some (int (stopped_streak toy_api ?h ''veh0''))"
    by simp
  with run obs short show ?thesis by simp
qed

text \<open>
  As stated, C6 fails when the count is taken over detection steps: after two steps
  standing still and one step off the ID list the stored counter is 2, though the vehicle
  was not observed at the most recent step; after one more step standing still it is 3,
  though only the most recent step of the unbroken run has the vehicle below 0.1.
\<close>

theorem stop_counters_absent_step_counterexample:
  "detect_run toy_api [halted, halted, empty_road] (fresh halted) = Inr (counted empty_road 2 [])
   \<and> stop_counters (counted empty_road 2 []) ''veh0'' = Some 2
   \<and> stopped_steps toy_api [halted, halted, empty_road] ''veh0'' = 0
   \<and> detect_run toy_api [halted, halted, empty_road, halted] (fresh halted)
       = Inr (counted halted 3 [])
   \<and> stop_counters (counted halted 3 []) ''veh0'' = Some 3
   \<and> stopped_steps toy_api [halted, halted, empty_road, halted] ''veh0'' = 1"
  by (simp add: toy_defs toy_obs stopped_steps_def)

text \<open>
  Claim C8. At one detection step the line for a prolonged stop is printed for \<open>v\<close> exactly
  when \<open>v\<close> is on the ID list and its counter after the step equals
  \<open>STOP_TIME_THRESHOLD\<close>, and it is printed at most once. Over any number of steps at
  which \<open>v\<close> is never observed with a speed of at least 0.1 (so its counter is never
  reset), starting from the counter \<open>c\<close> and observing \<open>v\<close> \<open>n\<close> times, the line is
  printed once if the counter passes through the threshold (\<open>c < 5 \<le> c + n\<close>) and not at
  all otherwise; in particular never again once the counter stands at 5 or more.
\<close>

theorem stop_flag_once_per_streak:
  "(detect_anomalies api s = Inr t \<and> distinct (id_list api (sim s)) \<longrightarrow>
      (Stop_anomaly v \<in> set (new_output s t)
         \<longleftrightarrow> v \<in> set (id_list api (sim s)) \<and> stop_counters t v = Some STOP_TIME_THRESHOLD)
      \<and> count_list (new_output s t) (Stop_anomaly v) \<le> 1)
   \<and> (detect_run api sms s = Inr s' \<and> (\<forall>sm\<in>set sms. distinct (id_list api sm))
        \<and> list_all stopped (observations api sms v) \<longrightarrow>
      count_list (new_output s s') (Stop_anomaly v)
        = (if dict_get (stop_counters s) v 0 < STOP_TIME_THRESHOLD
              \<and> STOP_TIME_THRESHOLD \<le> dict_get (stop_counters s) v 0
                    + int (length (observations api sms v))
           then 1 else 0))"
proof (intro conjI impI)
  assume a: "detect_anomalies api s = Inr t \<and> distinct (id_list api (sim s))"
  then have step: "detect_anomalies api s = Inr t" and d: "distinct (id_list api (sim s))"
    by simp_all
  show "Stop_anomaly v \<in> set (new_output s t)
         \<longleftrightarrow> v \<in> set (id_list api (sim s)) \<and> stop_counters t v = Some STOP_TIME_THRESHOLD"
  proof (cases "observed api (sim s) v")
    case None
    moreover from detect_anomalies_fold(2) [OF step] None
    have "v \<notin> set (id_list api (sim s))" by auto
    ultimately show ?thesis
      using detect_anomalies_stop_flag [OF step d, of v] by simp
  next
    case (Some x)
    then have "v \<in> set (id_list api (sim s))" by (rule observed_present)
    with Some detect_anomalies_stop_flag [OF step d, of v]
      detect_anomalies_present [OF step d Some]
    show ?thesis
      by (auto simp: count_step_def STOP_TIME_THRESHOLD_def)
  qed
  show "count_list (new_output s t) (Stop_anomaly v) \<le> 1"
    using detect_anomalies_stop_count [OF step d, of v]
    by (simp split: option.splits)
next
  assume "detect_run api sms s = Inr s' \<and> (\<forall>sm\<in>set sms. distinct (id_list api sm))
        \<and> list_all stopped (observations api sms v)"
  then show "count_list (new_output s s') (Stop_anomaly v)
        = (if dict_get (stop_counters s) v 0 < STOP_TIME_THRESHOLD
              \<and> STOP_TIME_THRESHOLD \<le> dict_get (stop_counters s) v 0
                    + int (length (observations api sms v))
           then 1 else 0)"
    using detect_run_stop_count [of api sms s s' v] by blast
qed

theorem stop_flag_once_per_streak_witness:
  "detect_run toy_api [halted, halted, halted, halted, halted, halted, halted] (fresh halted)
     = Inr (counted halted 7 [Stop_anomaly ''veh0''])
   \<and> count_list (new_output (fresh halted) (counted halted 7 [Stop_anomaly ''veh0'']))
        (Stop_anomaly ''veh0'') = 1
   \<and> detect_anomalies toy_api (counted halted 4 []) = Inr (counted halted 5 [Stop_anomaly ''veh0''])
   \<and> stop_counters (counted halted 5 [Stop_anomaly ''veh0'']) ''veh0'' = Some STOP_TIME_THRESHOLD"
proof -
  let ?h = "[halted, halted, halted, halted, halted, halted, halted]"
  have run: "detect_run toy_api ?h (fresh halted) = Inr (counted halted 7 [Stop_anomaly ''veh0''])"
    by (simp add: toy_defs)
  have d: "\<forall>sm\<in>set ?h. distinct (id_list toy_api sm)"
    by (simp add: toy_defs id_list_def)
  have obs: "observations toy_api ?h ''veh0'' = [0, 0, 0, 0, 0, 0, 0]"
    by (simp add: toy_defs toy_obs)
  then have all: "list_all stopped (observations toy_api ?h ''veh0'')"
    by (simp add: stopped_def)
  have step: "detect_anomalies toy_api (counted halted 4 [])
      = Inr (counted halted 5 [Stop_anomaly ''veh0''])"
    by (simp add: toy_defs)
  from stop_flag_once_per_streak
    [where api = toy_api and sms = ?h and s = "fresh halted"
       and s' = "counted halted 7 [Stop_anomaly ''veh0'']" and v = "''veh0''"]
    run d all obs
  have "count_list (new_output (fresh halted) (counted halted 7 [Stop_anomaly ''veh0'']))
        (Stop_anomaly ''veh0'') = 1"
    by (simp add: fresh_def dict_get_def STOP_TIME_THRESHOLD_def)
  with run step show ?thesis
    by (simp add: counted_def STOP_TIME_THRESHOLD_def)
qed

text \<open>
  Claim C9. A call of \<open>detect_anomalies\<close> that returns removes no key of \<open>stop_counters\<close>
  and leaves the entry of every ID that is not on the current ID list as it was. So when a
  vehicle is absent from the ID list for any number of steps and then is observed with a
  speed below 0.1, its counter is the one it had before it left, plus one.
\<close>

theorem stop_counters_frame:
  "(detect_anomalies api s = Inr t \<longrightarrow>
      dom (stop_counters s) \<subseteq> dom (stop_counters t)
      \<and> (\<forall>w. w \<notin> set (id_list api (sim s)) \<longrightarrow> stop_counters t w = stop_counters s w))
   \<and> (detect_run api sms s = Inr s1 \<and> (\<forall>sm\<in>set sms. v \<notin> set (id_list api sm))
        \<and> detect_anomalies api (s1\<lparr>sim := sm\<rparr>) = Inr s2 \<and> distinct (id_list api sm)
        \<and> observed api sm v = Some x \<and> x < 0.1 \<longrightarrow>
      stop_counters s1 v = stop_counters s v
      \<and> stop_counters s2 v = Some (dict_get (stop_counters s) v 0 + 1))"
proof (intro conjI impI allI)
  assume step: "detect_anomalies api s = Inr t"
  from detect_anomalies_fold(3) [OF step]
    fold_detect_dom [of "speed_read api (sim s)" "id_list api (sim s)" s]
  show "dom (stop_counters s) \<subseteq> dom (stop_counters t)" by auto
  fix w assume "w \<notin> set (id_list api (sim s))"
  then have "observed api (sim s) w = None" by (rule observed_absent)
  with step show "stop_counters t w = stop_counters s w"
    by (rule detect_anomalies_absent)
next
  assume a: "detect_run api sms s = Inr s1 \<and> (\<forall>sm\<in>set sms. v \<notin> set (id_list api sm))
        \<and> detect_anomalies api (s1\<lparr>sim := sm\<rparr>) = Inr s2 \<and> distinct (id_list api sm)
        \<and> observed api sm v = Some x \<and> x < 0.1"
  then show kept: "stop_counters s1 v = stop_counters s v"
    using detect_run_absent [of api sms s s1 v] by blast
  from a have step: "detect_anomalies api (s1\<lparr>sim := sm\<rparr>) = Inr s2"
    and d: "distinct (id_list api (sim (s1\<lparr>sim := sm\<rparr>)))"
    and obs: "observed api (sim (s1\<lparr>sim := sm\<rparr>)) v = Some x" and x: "x < 0.1"
    by simp_all
  from detect_anomalies_present [OF step d obs] kept x
  show "stop_counters s2 v = Some (dict_get (stop_counters s) v 0 + 1)"
    by (simp add: count_step_def dict_get_def)
qed

theorem stop_counters_frame_witness:
  "detect_run toy_api [empty_road, empty_road] (counted halted 2 []) = Inr (counted empty_road 2 [])
   \<and> detect_anomalies toy_api (counted halted 2 []) = Inr (counted halted 3 [])
   \<and> stop_counters (counted empty_road 2 []) ''veh0'' = Some 2
   \<and> stop_counters (counted halted 3 []) ''veh0'' = Some 3"
proof -
  have gone: "detect_run toy_api [empty_road, empty_road] (counted halted 2 [])
      = Inr (counted empty_road 2 [])"
    by (simp add: toy_defs)
  have absent: "\<forall>sm\<in>set [empty_road, empty_road]. ''veh0'' \<notin> set (id_list toy_api sm)"
    by (simp add: toy_defs id_list_def)
  have again: "detect_anomalies toy_api ((counted empty_road 2 [])\<lparr>sim := halted\<rparr>)
      = Inr (counted halted 3 [])"
    by (simp add: toy_defs)
  have d: "distinct (id_list toy_api halted)"
    by (simp add: toy_defs id_list_def)
  have obs: "observed toy_api halted ''veh0'' = Some 0"
    by (simp add: toy_defs toy_obs)
  from stop_counters_frame
    [where api = toy_api and sms = "[empty_road, empty_road]" and s = "counted halted 2 []"
       and ?s1.0 = "counted empty_road 2 []" and sm = halted and ?s2.0 = "counted halted 3 []"
       and v = "''veh0''" and x = 0]
    gone absent again d obs
  have "stop_counters (counted empty_road 2 []) ''veh0'' = stop_counters (counted halted 2 []) ''veh0''
      \<and> stop_counters (counted halted 3 []) ''veh0''
          = Some (dict_get (stop_counters (counted halted 2 [])) ''veh0'' 0 + 1)"
    by simp
  with gone again show ?thesis
    by (simp add: counted_def dict_get_def)
qed


subsection \<open>The main loop\<close>

text \<open>
  Claim C3, amended. The run of the main loop is the schedule: 50 plain iterations, then
  the one iteration (loop step 50) that calls the forced-stop injection, then 49 plain
  iterations, then the one iteration (loop step 100) that calls the insertion, then 199
  plain iterations; in both, the detection runs after the call. The call of step 50
  forces a stop only when the simulator reports vehicles: it then sets the speed of one
  vehicle of the reported list to 0, and the detection runs on the simulator that
  \<^verbatim>\<open>setSpeed\<close> returns; on an empty list the iteration is a plain one. The call of step 100
  inserts the vehicle only when \<^verbatim>\<open>vehicle.add\<close> returns: the detection then runs on the
  simulator with the vehicle added; when it raises \<^verbatim>\<open>TraCIException\<close>, the simulator is
  as the step left it and only the error line is printed. So a run injects at most two
  anomalies, each at its own step, and not always two.
\<close>

theorem run_simulation_injections:
  "run_simulation api r now counters =
     and_then (traci_start api sumo_cmd) (\<lambda>sm.
     and_then (schedule api r now
                 (print Info_started \<lparr>sim = sm, stop_counters = counters, stdout = []\<rparr>))
       (\<lambda>s. Inr (print Info_finished s)))
   \<and> (traci_simulationStep api (sim s) = Inr sm \<and> vehicle_getIDList api sm = Inr [] \<longrightarrow>
        stop_step api r s = plain_step api s)
   \<and> (traci_simulationStep api (sim s) = Inr sm \<and> vehicle_getIDList api sm = Inr ids
        \<and> ids \<noteq> [] \<and> vehicle_setSpeed api sm (random_choice r ids) 0 = Inr sm' \<longrightarrow>
        random_choice r ids \<in> set ids
        \<and> stop_step api r s
            = detect_anomalies api
                (s\<lparr>stdout := stdout s @ [Injection_stop (random_choice r ids)], sim := sm'\<rparr>))
   \<and> (traci_simulationStep api (sim s) = Inr sm
        \<and> vehicle_add api sm (new_vehicle_id now) ''route_0'' ''0'' ''max'' ''car'' = Inr sm' \<longrightarrow>
        unauthorized_step api now s
          = detect_anomalies api
              (s\<lparr>sim := sm', stdout := stdout s @ [Injection_unauthorized (new_vehicle_id now)]\<rparr>))
   \<and> (traci_simulationStep api (sim s) = Inr sm
        \<and> vehicle_add api sm (new_vehicle_id now) ''route_0'' ''0'' ''max'' ''car''
            = Inl (TraCIException e) \<longrightarrow>
        unauthorized_step api now s
          = detect_anomalies api (s\<lparr>sim := sm, stdout := stdout s @ [Error_inject e]\<rparr>))"
proof (intro conjI impI)
  show "run_simulation api r now counters =
     and_then (traci_start api sumo_cmd) (\<lambda>sm.
     and_then (schedule api r now
                 (print Info_started \<lparr>sim = sm, stop_counters = counters, stdout = []\<rparr>))
       (\<lambda>s. Inr (print Info_finished s)))"
    by (simp only: run_simulation_def run_loop_schedule)
next
  assume "traci_simulationStep api (sim s) = Inr sm \<and> vehicle_getIDList api sm = Inr []"
  then show "stop_step api r s = plain_step api s"
    by (simp add: stop_step_empty)
next
  assume a: "traci_simulationStep api (sim s) = Inr sm \<and> vehicle_getIDList api sm = Inr ids
        \<and> ids \<noteq> [] \<and> vehicle_setSpeed api sm (random_choice r ids) 0 = Inr sm'"
  then show "random_choice r ids \<in> set ids"
    by (simp add: random_choice_def)
  from a show "stop_step api r s
            = detect_anomalies api
                (s\<lparr>stdout := stdout s @ [Injection_stop (random_choice r ids)], sim := sm'\<rparr>)"
    by (simp add: stop_step_def inject_sudden_stop_anomaly_def print_def Let_def)
next
  assume "traci_simulationStep api (sim s) = Inr sm
        \<and> vehicle_add api sm (new_vehicle_id now) ''route_0'' ''0'' ''max'' ''car'' = Inr sm'"
  then show "unauthorized_step api now s
          = detect_anomalies api
              (s\<lparr>sim := sm', stdout := stdout s @ [Injection_unauthorized (new_vehicle_id now)]\<rparr>)"
    by (simp add: unauthorized_step_def inject_unauthorized_vehicle_def print_def Let_def)
next
  assume "traci_simulationStep api (sim s) = Inr sm
        \<and> vehicle_add api sm (new_vehicle_id now) ''route_0'' ''0'' ''max'' ''car''
            = Inl (TraCIException e)"
  then show "unauthorized_step api now s
          = detect_anomalies api (s\<lparr>sim := sm, stdout := stdout s @ [Error_inject e]\<rparr>)"
    by (simp add: unauthorized_step_def inject_unauthorized_vehicle_def print_def Let_def)
qed

theorem run_simulation_injections_witness:
  "stop_step toy_api 7 (fresh (on_road [(''car1'', 13.9), (''car2'', 8)]))
     = Inr \<lparr>sim = on_road [(''car1'', 13.9), (''car2'', 0)],
            stop_counters = [''car1'' \<mapsto> 0, ''car2'' \<mapsto> 1],
            stdout = [Injection_stop ''car2'']\<rparr>
   \<and> stop_step toy_api 7 (fresh empty_road) = Inr (fresh empty_road)
   \<and> unauthorized_step toy_api 1762259200.5 (fresh empty_road)
       = Inr \<lparr>sim = on_road [(''unauth1762259200'', 0)],
              stop_counters = [''unauth1762259200'' \<mapsto> 1],
              stdout = [Injection_unauthorized ''unauth1762259200'',
                        Unauthorized_anomaly ''unauth1762259200'']\<rparr>
   \<and> unauthorized_step no_route_api 1762259200.5 (fresh empty_road)
       = Inr \<lparr>sim = empty_road, stop_counters = Map.empty,
              stdout = [Error_inject ''route is not known'']\<rparr>"
proof -
  let ?busy = "fresh (on_road [(''car1'', 13.9), (''car2'', 8)])"
  let ?ids = "[''car1'', ''car2'']"
  have pick: "random_choice 7 ?ids = ''car2''"
    by (simp add: random_choice_def numeral_2_eq_2 [symmetric])
  have busy: "traci_simulationStep toy_api (sim ?busy) = Inr (on_road [(''car1'', 13.9), (''car2'', 8)])
      \<and> vehicle_getIDList toy_api (on_road [(''car1'', 13.9), (''car2'', 8)]) = Inr ?ids
      \<and> ?ids \<noteq> []
      \<and> vehicle_setSpeed toy_api (on_road [(''car1'', 13.9), (''car2'', 8)]) (random_choice 7 ?ids) 0
          = Inr (on_road [(''car1'', 13.9), (''car2'', 0)])"
    by (simp add: pick toy_defs)
  have none: "traci_simulationStep toy_api (sim (fresh empty_road)) = Inr empty_road
      \<and> vehicle_getIDList toy_api empty_road = Inr []"
    by (simp add: toy_defs)
  have added: "traci_simulationStep toy_api (sim (fresh empty_road)) = Inr empty_road
      \<and> vehicle_add toy_api empty_road (new_vehicle_id 1762259200.5) ''route_0'' ''0'' ''max'' ''car''
          = Inr (on_road [(''unauth1762259200'', 0)])"
    by (simp add: new_vehicle_id_simps toy_defs)
  have refused: "traci_simulationStep no_route_api (sim (fresh empty_road)) = Inr empty_road
      \<and> vehicle_add no_route_api empty_road (new_vehicle_id 1762259200.5)
            ''route_0'' ''0'' ''max'' ''car''
          = Inl (TraCIException ''route is not known'')"
    by (simp add: no_route_api_def toy_defs)
  from run_simulation_injections
    [where api = toy_api and r = 7 and s = ?busy and ids = ?ids
       and sm = "on_road [(''car1'', 13.9), (''car2'', 8)]"
       and sm' = "on_road [(''car1'', 13.9), (''car2'', 0)]"] busy
  have "stop_step toy_api 7 ?busy
      = detect_anomalies toy_api
          (?busy\<lparr>stdout := stdout ?busy @ [Injection_stop (random_choice 7 ?ids)],
                 sim := on_road [(''car1'', 13.9), (''car2'', 0)]\<rparr>)"
    by blast
  then have c1: "stop_step toy_api 7 ?busy
     = Inr \<lparr>sim = on_road [(''car1'', 13.9), (''car2'', 0)],
            stop_counters = [''car1'' \<mapsto> 0, ''car2'' \<mapsto> 1],
            stdout = [Injection_stop ''car2'']\<rparr>"
    by (simp add: pick toy_defs)
  from run_simulation_injections
    [where api = toy_api and r = 7 and s = "fresh empty_road" and sm = empty_road] none
  have "stop_step toy_api 7 (fresh empty_road) = plain_step toy_api (fresh empty_road)"
    by blast
  then have c2: "stop_step toy_api 7 (fresh empty_road) = Inr (fresh empty_road)"
    by (simp add: plain_step_def toy_defs)
  from run_simulation_injections
    [where api = toy_api and now = "1762259200.5" and s = "fresh empty_road" and sm = empty_road
       and sm' = "on_road [(''unauth1762259200'', 0)]"] added
  have "unauthorized_step toy_api 1762259200.5 (fresh empty_road)
      = detect_anomalies toy_api
          ((fresh empty_road)\<lparr>sim := on_road [(''unauth1762259200'', 0)],
             stdout := stdout (fresh empty_road)
               @ [Injection_unauthorized (new_vehicle_id 1762259200.5)]\<rparr>)"
    by blast
  then have c3: "unauthorized_step toy_api 1762259200.5 (fresh empty_road)
       = Inr \<lparr>sim = on_road [(''unauth1762259200'', 0)],
              stop_counters = [''unauth1762259200'' \<mapsto> 1],
              stdout = [Injection_unauthorized ''unauth1762259200'',
                        Unauthorized_anomaly ''unauth1762259200'']\<rparr>"
    by (simp add: new_vehicle_id_simps toy_defs)
  from run_simulation_injections
    [where api = no_route_api and now = "1762259200.5" and s = "fresh empty_road"
       and sm = empty_road and e = "''route is not known''"] refused
  have "unauthorized_step no_route_api 1762259200.5 (fresh empty_road)
      = detect_anomalies no_route_api
          ((fresh empty_road)\<lparr>sim := empty_road,
             stdout := stdout (fresh empty_road) @ [Error_inject ''route is not known'']\<rparr>)"
    by blast
  then have c4: "unauthorized_step no_route_api 1762259200.5 (fresh empty_road)
       = Inr \<lparr>sim = empty_road, stop_counters = Map.empty,
              stdout = [Error_inject ''route is not known'']\<rparr>"
    by (simp add: no_route_api_def toy_defs)
  from c1 c2 c3 c4 show ?thesis by simp
qed

text \<open>
  As stated, C3 fails: on a road that stays empty, with a route file that lacks the
  route, the whole run sets no speed and inserts no vehicle. The simulator ends as it
  started, and the output has the line of the failed insertion and no injection line.
\<close>

theorem run_without_injection_counterexample:
  "run_simulation no_route_api 7 1762259200.5 Map.empty
     = Inr \<lparr>sim = empty_road, stop_counters = Map.empty,
            stdout = [Info_started, Error_inject ''route is not known'', Info_finished]\<rparr>"
proof -
  let ?s0 = "\<lparr>sim = empty_road, stop_counters = Map.empty, stdout = [Info_started]\<rparr>"
  let ?s1 = "\<lparr>sim = empty_road, stop_counters = Map.empty,
             stdout = [Info_started, Error_inject ''route is not known'']\<rparr>"
  have before: "run_loop no_route_api 7 1762259200.5 [0..<100] ?s0 = Inr ?s0"
    by (rule run_loop_fixed) (simp add: no_route_defs)
  have at100: "loop_body no_route_api 7 1762259200.5 100 ?s0 = Inr ?s1"
    by (simp add: no_route_defs)
  have after: "run_loop no_route_api 7 1762259200.5 [101..<300] ?s1 = Inr ?s1"
    by (rule run_loop_fixed) (simp add: no_route_defs)
  have split: "[0..<300] = [0..<100] @ 100 # [101..<300]"
  proof -
    have "[0..<300] = [0..<100] @ [100..<300]"
      using upt_add_eq_append [of 0 100 200] by simp
    moreover have "[100..<300] = 100 # [101..<300]"
      using upt_conv_Cons [of 100 300] by simp
    ultimately show ?thesis by simp
  qed
  have "run_loop no_route_api 7 1762259200.5 ([0..<100] @ 100 # [101..<300]) ?s0 = Inr ?s1"
    by (simp only: run_loop_append run_loop.simps before at100 after and_then_Inr)
  then have loop: "run_loop no_route_api 7 1762259200.5 [0..<300] ?s0 = Inr ?s1"
    by (simp only: split)
  have start: "traci_start no_route_api sumo_cmd = Inr empty_road"
    by (simp add: no_route_defs)
  have "run_simulation no_route_api 7 1762259200.5 Map.empty
      = and_then (run_loop no_route_api 7 1762259200.5 [0..<300] ?s0)
          (\<lambda>s. Inr (print Info_finished s))"
    by (simp add: run_simulation_def start print_def)
  with loop show ?thesis
    by (simp add: print_def)
qed

subsection \<open>Failure handling\<close>

text \<open>
  Claim C5. A \<^verbatim>\<open>TraCIException\<close> raised by the insertion is caught: the function returns
  normally, the state is the one it was given with the error line appended to the output
  (simulator and counters unchanged), and the iteration of step 100 goes on with the
  detection on that state. Nothing else is caught: any other exception of the insertion,
  and every exception of \<^verbatim>\<open>getIDList\<close>, \<^verbatim>\<open>setSpeed\<close>, \<^verbatim>\<open>getSpeed\<close>, \<^verbatim>\<open>simulationStep\<close> and
  \<^verbatim>\<open>start\<close>, is the result of the function that made the call, of the iteration, of the
  loop and of \<open>run_simulation\<close>.
\<close>

theorem only_insertion_exception_caught:
  "(vehicle_add api (sim s) (new_vehicle_id now) ''route_0'' ''0'' ''max'' ''car''
        = Inl (TraCIException e) \<longrightarrow>
      inject_unauthorized_vehicle api now s = Inr (s\<lparr>stdout := stdout s @ [Error_inject e]\<rparr>))
   \<and> (traci_simulationStep api (sim s) = Inr sm
        \<and> vehicle_add api sm (new_vehicle_id now) ''route_0'' ''0'' ''max'' ''car''
            = Inl (TraCIException e) \<longrightarrow>
      loop_body api r now 100 s
        = detect_anomalies api (s\<lparr>sim := sm, stdout := stdout s @ [Error_inject e]\<rparr>))
   \<and> (vehicle_add api (sim s) (new_vehicle_id now) ''route_0'' ''0'' ''max'' ''car''
        = Inl (FatalTraCIError e) \<longrightarrow>
      inject_unauthorized_vehicle api now s = Inl (FatalTraCIError e))
   \<and> (vehicle_getIDList api (sim s) = Inl x \<longrightarrow>
      inject_sudden_stop_anomaly api r s = Inl x \<and> detect_anomalies api s = Inl x)
   \<and> (vehicle_getIDList api (sim s) = Inr ids \<and> ids \<noteq> []
        \<and> vehicle_setSpeed api (sim s) (random_choice r ids) 0 = Inl x \<longrightarrow>
      inject_sudden_stop_anomaly api r s = Inl x)
   \<and> (vehicle_getIDList api (sim s) = Inr ids \<and> v \<in> set ids
        \<and> vehicle_getSpeed api (sim s) v = Inl x \<longrightarrow>
      (\<exists>w x'. w \<in> set ids \<and> vehicle_getSpeed api (sim s) w = Inl x'
          \<and> detect_anomalies api s = Inl x'))
   \<and> (traci_simulationStep api (sim s) = Inl x \<longrightarrow> loop_body api r now step s = Inl x)
   \<and> (traci_simulationStep api (sim s) = Inr sm
        \<and> inject_sudden_stop_anomaly api r (s\<lparr>sim := sm\<rparr>) = Inl x \<longrightarrow>
      loop_body api r now 50 s = Inl x)
   \<and> (traci_simulationStep api (sim s) = Inr sm
        \<and> inject_unauthorized_vehicle api now (s\<lparr>sim := sm\<rparr>) = Inl x \<longrightarrow>
      loop_body api r now 100 s = Inl x)
   \<and> (traci_simulationStep api (sim s) = Inr sm
        \<and> (if step = 50 then inject_sudden_stop_anomaly api r (s\<lparr>sim := sm\<rparr>)
            else Inr (s\<lparr>sim := sm\<rparr>)) = Inr s2
        \<and> (if step = 100 then inject_unauthorized_vehicle api now s2 else Inr s2) = Inr s3
        \<and> detect_anomalies api s3 = Inl x \<longrightarrow>
      loop_body api r now step s = Inl x)
   \<and> (run_loop api r now before s = Inr s1 \<and> loop_body api r now step s1 = Inl x \<longrightarrow>
      run_loop api r now (before @ step # rest) s = Inl x)
   \<and> (traci_start api sumo_cmd = Inl x \<longrightarrow> run_simulation api r now counters = Inl x)
   \<and> (traci_start api sumo_cmd = Inr sm
        \<and> run_loop api r now [0..<300]
             (print Info_started \<lparr>sim = sm, stop_counters = counters, stdout = []\<rparr>) = Inl x \<longrightarrow>
      run_simulation api r now counters = Inl x)"
proof (intro conjI impI)
  assume "vehicle_add api (sim s) (new_vehicle_id now) ''route_0'' ''0'' ''max'' ''car''
        = Inl (TraCIException e)"
  then show "inject_unauthorized_vehicle api now s
      = Inr (s\<lparr>stdout := stdout s @ [Error_inject e]\<rparr>)"
    by (simp add: inject_unauthorized_vehicle_def print_def)
next
  assume "traci_simulationStep api (sim s) = Inr sm
        \<and> vehicle_add api sm (new_vehicle_id now) ''route_0'' ''0'' ''max'' ''car''
            = Inl (TraCIException e)"
  then show "loop_body api r now 100 s
        = detect_anomalies api (s\<lparr>sim := sm, stdout := stdout s @ [Error_inject e]\<rparr>)"
    by (simp add: loop_body_def inject_unauthorized_vehicle_def print_def)
next
  assume "vehicle_add api (sim s) (new_vehicle_id now) ''route_0'' ''0'' ''max'' ''car''
        = Inl (FatalTraCIError e)"
  then show "inject_unauthorized_vehicle api now s = Inl (FatalTraCIError e)"
    by (simp add: inject_unauthorized_vehicle_def)
next
  assume a: "vehicle_getIDList api (sim s) = Inl x"
  then show "inject_sudden_stop_anomaly api r s = Inl x"
    by (simp add: inject_sudden_stop_anomaly_def)
  from a show "detect_anomalies api s = Inl x"
    by (simp add: detect_anomalies_def)
next
  assume "vehicle_getIDList api (sim s) = Inr ids \<and> ids \<noteq> []
        \<and> vehicle_setSpeed api (sim s) (random_choice r ids) 0 = Inl x"
  then show "inject_sudden_stop_anomaly api r s = Inl x"
    by (simp add: inject_sudden_stop_anomaly_def print_def Let_def)
next
  assume "vehicle_getIDList api (sim s) = Inr ids \<and> v \<in> set ids
        \<and> vehicle_getSpeed api (sim s) v = Inl x"
  then show "\<exists>w x'. w \<in> set ids \<and> vehicle_getSpeed api (sim s) w = Inl x'
          \<and> detect_anomalies api s = Inl x'"
    using detect_loop_raises [of v ids api s x]
    by (simp add: detect_anomalies_def)
next
  assume "traci_simulationStep api (sim s) = Inl x"
  then show "loop_body api r now step s = Inl x"
    by (simp add: loop_body_def)
next
  assume "traci_simulationStep api (sim s) = Inr sm
        \<and> inject_sudden_stop_anomaly api r (s\<lparr>sim := sm\<rparr>) = Inl x"
  then show "loop_body api r now 50 s = Inl x"
    by (simp add: loop_body_def)
next
  assume "traci_simulationStep api (sim s) = Inr sm
        \<and> inject_unauthorized_vehicle api now (s\<lparr>sim := sm\<rparr>) = Inl x"
  then show "loop_body api r now 100 s = Inl x"
    by (simp add: loop_body_def)
next
  assume "traci_simulationStep api (sim s) = Inr sm
        \<and> (if step = 50 then inject_sudden_stop_anomaly api r (s\<lparr>sim := sm\<rparr>)
            else Inr (s\<lparr>sim := sm\<rparr>)) = Inr s2
        \<and> (if step = 100 then inject_unauthorized_vehicle api now s2 else Inr s2) = Inr s3
        \<and> detect_anomalies api s3 = Inl x"
  then show "loop_body api r now step s = Inl x"
    by (simp add: loop_body_def)
next
  assume "run_loop api r now before s = Inr s1 \<and> loop_body api r now step s1 = Inl x"
  then show "run_loop api r now (before @ step # rest) s = Inl x"
    by (simp add: run_loop_raises)
next
  assume "traci_start api sumo_cmd = Inl x"
  then show "run_simulation api r now counters = Inl x"
    by (simp add: run_simulation_def)
next
  assume "traci_start api sumo_cmd = Inr sm
        \<and> run_loop api r now [0..<300]
             (print Info_started \<lparr>sim = sm, stop_counters = counters, stdout = []\<rparr>) = Inl x"
  then show "run_simulation api r now counters = Inl x"
    by (simp only: run_simulation_def and_then_Inr and_then_Inl)
qed

theorem only_insertion_exception_caught_witness:
  "inject_unauthorized_vehicle toy_api 1762259200.5
       (counted (on_road [(''unauth1762259200'', 0)]) 2 [])
     = Inr (counted (on_road [(''unauth1762259200'', 0)]) 2
              [Error_inject ''another vehicle with the id exists''])
   \<and> inject_sudden_stop_anomaly toy_api 7 (fresh offline) = Inl (FatalTraCIError ''connection closed'')
   \<and> detect_anomalies toy_api (fresh offline) = Inl (FatalTraCIError ''connection closed'')
   \<and> loop_body toy_api 7 1762259200.5 3 (fresh offline) = Inl (FatalTraCIError ''connection closed'')"
proof -
  let ?s = "counted (on_road [(''unauth1762259200'', 0)]) 2 []"
  have taken: "vehicle_add toy_api (sim ?s) (new_vehicle_id 1762259200.5)
        ''route_0'' ''0'' ''max'' ''car''
      = Inl (TraCIException ''another vehicle with the id exists'')"
    by (simp add: new_vehicle_id_simps toy_defs)
  have down: "vehicle_getIDList toy_api (sim (fresh offline))
      = Inl (FatalTraCIError ''connection closed'')"
    by (simp add: toy_defs)
  have step: "traci_simulationStep toy_api (sim (fresh offline))
      = Inl (FatalTraCIError ''connection closed'')"
    by (simp add: toy_defs)
  note inst = only_insertion_exception_caught
    [where api = toy_api and now = "1762259200.5" and r = 7 and step = 3
       and x = "FatalTraCIError ''connection closed''"
       and e = "''another vehicle with the id exists''"]
  from inst [where s = ?s] taken
  have caught: "inject_unauthorized_vehicle toy_api 1762259200.5 ?s
      = Inr (?s\<lparr>stdout := stdout ?s @ [Error_inject ''another vehicle with the id exists'']\<rparr>)"
    by blast
  from inst [where s = "fresh offline"] down step
  have raised: "inject_sudden_stop_anomaly toy_api 7 (fresh offline)
        = Inl (FatalTraCIError ''connection closed'')
      \<and> detect_anomalies toy_api (fresh offline) = Inl (FatalTraCIError ''connection closed'')
      \<and> loop_body toy_api 7 1762259200.5 3 (fresh offline)
          = Inl (FatalTraCIError ''connection closed'')"
    by blast
  from caught raised show ?thesis
    by (simp add: counted_def)
qed

subsection \<open>Insertion and detection together\<close>

text \<open>
  Claim C7. The ID the insertion passes to \<^verbatim>\<open>vehicle.add\<close> starts with the prefix the
  detection tests for, whatever the clock reads; when the clock reads a time not before
  the epoch (\<^verbatim>\<open>time.time()\<close> counts the seconds since then, and \<open>str\<close> would put a minus
  sign before the digits of a negative number), the ID is \<^verbatim>\<open>unauth\<close> followed by one or
  more decimal digits. When the insertion succeeds, the vehicle is added under that ID;
  and at every detection step that returns and has that ID on its ID list, the line for
  an unauthorized vehicle is printed for it.
\<close>

theorem injected_vehicle_is_flagged:
  "startswith (new_vehicle_id now) UNAUTHORIZED_VEHICLE_PREFIX
   \<and> (0 \<le> now \<longrightarrow>
        (\<exists>ds. new_vehicle_id now = ''unauth'' @ ds \<and> ds \<noteq> [] \<and> set ds \<subseteq> set ''0123456789''))
   \<and> (vehicle_add api (sim s) (new_vehicle_id now) ''route_0'' ''0'' ''max'' ''car'' = Inr sm \<longrightarrow>
        inject_unauthorized_vehicle api now s
          = Inr (s\<lparr>sim := sm, stdout := stdout s @ [Injection_unauthorized (new_vehicle_id now)]\<rparr>))
   \<and> (detect_anomalies api t = Inr t' \<and> new_vehicle_id now \<in> set (id_list api (sim t)) \<longrightarrow>
        Unauthorized_anomaly (new_vehicle_id now) \<in> set (new_output t t'))"
proof (intro conjI impI)
  show pre: "startswith (new_vehicle_id now) UNAUTHORIZED_VEHICLE_PREFIX"
    by (simp add: new_vehicle_id_def startswith_append)
  {
    assume "0 \<le> now"
    then have "0 \<le> py_int now" by (simp add: py_int_def)
    then have "new_vehicle_id now = ''unauth'' @ digits (nat (py_int now))"
      by (simp add: new_vehicle_id_def py_str_def UNAUTHORIZED_VEHICLE_PREFIX_def)
    with digits_are_digits [of "nat (py_int now)"]
    show "\<exists>ds. new_vehicle_id now = ''unauth'' @ ds \<and> ds \<noteq> [] \<and> set ds \<subseteq> set ''0123456789''"
      by blast
  }
  {
    assume "vehicle_add api (sim s) (new_vehicle_id now) ''route_0'' ''0'' ''max'' ''car'' = Inr sm"
    then show "inject_unauthorized_vehicle api now s
          = Inr (s\<lparr>sim := sm, stdout := stdout s @ [Injection_unauthorized (new_vehicle_id now)]\<rparr>)"
      by (simp add: inject_unauthorized_vehicle_def print_def)
  }
  {
    assume a: "detect_anomalies api t = Inr t' \<and> new_vehicle_id now \<in> set (id_list api (sim t))"
    then have step: "detect_anomalies api t = Inr t'" by simp
    from fold_detect_unauthorized [of "speed_read api (sim t)" "id_list api (sim t)" t]
      detect_anomalies_fold(3) [OF step]
    obtain out where out: "stdout t' = stdout t @ out"
      and mem: "\<forall>v. Unauthorized_anomaly v \<in> set out
            \<longleftrightarrow> v \<in> set (id_list api (sim t)) \<and> startswith v UNAUTHORIZED_VEHICLE_PREFIX"
      by auto
    from out have "new_output t t' = out" by (simp add: new_output_def)
    with mem a pre show "Unauthorized_anomaly (new_vehicle_id now) \<in> set (new_output t t')"
      by simp
  }
qed

theorem injected_vehicle_is_flagged_witness:
  "new_vehicle_id 1762259200.5 = ''unauth1762259200''
   \<and> inject_unauthorized_vehicle toy_api 1762259200.5 (fresh empty_road)
       = Inr \<lparr>sim = on_road [(''unauth1762259200'', 0)], stop_counters = Map.empty,
              stdout = [Injection_unauthorized ''unauth1762259200'']\<rparr>
   \<and> detect_anomalies toy_api
         \<lparr>sim = on_road [(''unauth1762259200'', 0)], stop_counters = Map.empty,
          stdout = [Injection_unauthorized ''unauth1762259200'']\<rparr>
       = Inr \<lparr>sim = on_road [(''unauth1762259200'', 0)],
              stop_counters = [''unauth1762259200'' \<mapsto> 1],
              stdout = [Injection_unauthorized ''unauth1762259200'',
                        Unauthorized_anomaly ''unauth1762259200'']\<rparr>
   \<and> Unauthorized_anomaly ''unauth1762259200''
       \<in> set (new_output
           \<lparr>sim = on_road [(''unauth1762259200'', 0)], stop_counters = Map.empty,
            stdout = [Injection_unauthorized ''unauth1762259200'']\<rparr>
           \<lparr>sim = on_road [(''unauth1762259200'', 0)],
            stop_counters = [''unauth1762259200'' \<mapsto> 1],
            stdout = [Injection_unauthorized ''unauth1762259200'',
                      Unauthorized_anomaly ''unauth1762259200'']\<rparr>)"
proof -
  let ?t = "\<lparr>sim = on_road [(''unauth1762259200'', 0)], stop_counters = Map.empty,
            stdout = [Injection_unauthorized ''unauth1762259200'']\<rparr>"
  let ?t' = "\<lparr>sim = on_road [(''unauth1762259200'', 0)],
             stop_counters = [''unauth1762259200'' \<mapsto> 1],
             stdout = [Injection_unauthorized ''unauth1762259200'',
                       Unauthorized_anomaly ''unauth1762259200'']\<rparr>"
  note id = new_vehicle_id_simps
  have after_epoch: "(0::real) \<le> 1762259200.5" by simp
  have added: "vehicle_add toy_api (sim (fresh empty_road)) (new_vehicle_id 1762259200.5)
        ''route_0'' ''0'' ''max'' ''car'' = Inr (on_road [(''unauth1762259200'', 0)])"
    by (simp add: id toy_defs)
  have step: "detect_anomalies toy_api ?t = Inr ?t'"
    by (simp add: toy_defs)
  have listed: "new_vehicle_id 1762259200.5 \<in> set (id_list toy_api (sim ?t))"
    by (simp add: id toy_defs id_list_def)
  from injected_vehicle_is_flagged
    [where api = toy_api and now = "1762259200.5" and s = "fresh empty_road"
       and sm = "on_road [(''unauth1762259200'', 0)]" and t = ?t and t' = ?t']
    after_epoch added step listed
  have "inject_unauthorized_vehicle toy_api 1762259200.5 (fresh empty_road)
          = Inr ((fresh empty_road)\<lparr>sim := on_road [(''unauth1762259200'', 0)],
                 stdout := stdout (fresh empty_road)
                   @ [Injection_unauthorized (new_vehicle_id 1762259200.5)]\<rparr>)
      \<and> Unauthorized_anomaly (new_vehicle_id 1762259200.5) \<in> set (new_output ?t ?t')"
    by blast
  with id step show ?thesis
    by (simp add: fresh_def)
qed

end
